theory Spec2Isabelle
  imports Main
begin

section \<open>Python strings\<close>

text \<open>
  A Python \<open>str\<close> is modelled as a \<^typ>\<open>string\<close>: a list of characters whose code
  points lie in 0..255 (Latin-1). The character classes below are the restrictions of
  Python's Unicode classes to that range.
\<close>

definition isspace :: "char \<Rightarrow> bool" where
  \<comment> \<open>\<open>str.isspace\<close>, also the regular expression class \<open>\s\<close> of a \<open>str\<close> pattern\<close>
  "isspace c = (c \<in> set [CHR 0x09, CHR 0x0A, CHR 0x0B, CHR 0x0C, CHR 0x0D, CHR 0x1C,
                           CHR 0x1D, CHR 0x1E, CHR 0x1F, CHR 0x20, CHR 0x85, CHR 0xA0])"

definition is_decimal :: "char \<Rightarrow> bool" where
  \<comment> \<open>Unicode category Nd: the class \<open>\d\<close>, and the digits \<open>int()\<close> accepts\<close>
  "is_decimal c = (c \<in> set ''0123456789'')"

definition isdigit_char :: "char \<Rightarrow> bool" where
  \<comment> \<open>the characters \<open>str.isdigit\<close> accepts: the decimals and the superscripts 2, 3, 1\<close>
  "isdigit_char c = (is_decimal c \<or> c \<in> set [CHR 0xB2, CHR 0xB3, CHR 0xB9])"

definition isdigit :: "string \<Rightarrow> bool" where
  \<comment> \<open>\<open>v.isdigit()\<close>: false on the empty string\<close>
  "isdigit v = (v \<noteq> [] \<and> list_all isdigit_char v)"

definition linebreak :: "char \<Rightarrow> bool" where
  \<comment> \<open>the line boundaries of \<open>str.splitlines\<close>\<close>
  "linebreak c = (c \<in> set [CHR 0x0A, CHR 0x0B, CHR 0x0C, CHR 0x0D, CHR 0x1C, CHR 0x1D,
                             CHR 0x1E, CHR 0x85])"

fun splitlines_from :: "string \<Rightarrow> string \<Rightarrow> string list" where
  "splitlines_from acc [] = (if acc = [] then [] else [rev acc])"
| "splitlines_from acc [c] = (if linebreak c then [rev acc] else [rev (c # acc)])"
| "splitlines_from acc (c # d # cs) =
     (if c = CHR 0x0D \<and> d = CHR 0x0A then rev acc # splitlines_from [] cs
      else if linebreak c then rev acc # splitlines_from [] (d # cs)
      else splitlines_from (c # acc) (d # cs))"

definition splitlines :: "string \<Rightarrow> string list" where
  \<comment> \<open>\<open>out.splitlines()\<close>: \<open>\r\n\<close> is one boundary, no empty last line\<close>
  "splitlines out = splitlines_from [] out"

definition replace_char :: "char \<Rightarrow> string \<Rightarrow> string \<Rightarrow> string" where
  \<comment> \<open>\<open>line.replace(c, new)\<close> for a one-character \<open>c\<close>\<close>
  "replace_char c new line = concat (map (\<lambda>x. if x = c then new else [x]) line)"

definition strip :: "string \<Rightarrow> string" where
  \<comment> \<open>\<open>line.strip()\<close>\<close>
  "strip line = rev (dropWhile isspace (rev (dropWhile isspace line)))"

datatype exn = UnboundLocalError | ValueError | AttributeError | TypeError | DeviceError

fun digit_val :: "char \<Rightarrow> int" where
  "digit_val c = int (of_char c) - 48"

definition decimal_value :: "string \<Rightarrow> int" where
  "decimal_value v = foldl (\<lambda>n c. 10 * n + digit_val c) 0 v"

fun underscores_ok :: "string \<Rightarrow> bool" where
  \<comment> \<open>digits, with single underscores between digits only\<close>
  "underscores_ok [] = False"
| "underscores_ok [c] = is_decimal c"
| "underscores_ok (c # d # cs) =
     (is_decimal c \<and> (if d = CHR ''_'' then underscores_ok cs else underscores_ok (d # cs)))"

definition int_space :: "char \<Rightarrow> bool" where
  \<comment> \<open>the whitespace \<open>int()\<close> skips around a numeral: not the separators 0x1C to 0x1F\<close>
  "int_space c = (c \<in> set [CHR 0x09, CHR 0x0A, CHR 0x0B, CHR 0x0C, CHR 0x0D, CHR 0x20,
                             CHR 0x85, CHR 0xA0])"

definition py_int :: "string \<Rightarrow> exn + int" where
  \<comment> \<open>\<open>int(v)\<close> in base 10: surrounding whitespace, an optional sign, decimal digits.
      An interpreter that limits the length of the digit string raises \<open>ValueError\<close> on
      longer ones; the model converts them.\<close>
  "py_int v =
     (let t = rev (dropWhile int_space (rev (dropWhile int_space v)));
          neg = (case t of c # _ \<Rightarrow> c = CHR ''-'' | [] \<Rightarrow> False);
          body = (case t of c # r \<Rightarrow> if c = CHR ''-'' \<or> c = CHR ''+'' then r else t | [] \<Rightarrow> t)
      in if underscores_ok body
         then Inr ((if neg then -1 else 1) * decimal_value (filter (\<lambda>c. c \<noteq> CHR ''_'') body))
         else Inl ValueError)"

section \<open>Regular expressions\<close>

text \<open>
  The fragment of Python's \<open>re\<close> the parser's patterns use, matched the way \<open>re\<close> matches:
  by backtracking, greedy repetitions first, the first complete match wins. The matcher is
  written with a continuation for the rest of the pattern; a group's capture is the text
  its body consumed on the path that finally succeeds.
\<close>

datatype atom = Lit char | NonSpace | Digit | Dot

datatype regex =
    One atom
  | Plus atom
  | Star atom
  | Group string "regex list"
  | Opt "regex list"
  | Bol
  | Eol

fun accepts :: "atom \<Rightarrow> char \<Rightarrow> bool" where
  "accepts (Lit a) c = (c = a)"
| "accepts NonSpace c = (\<not> isspace c)"
| "accepts Digit c = is_decimal c"
| "accepts Dot c = (c \<noteq> CHR 0x0A)"

type_synonym caps = "(string \<times> string) list"

fun star :: "atom \<Rightarrow> string \<Rightarrow> (string \<Rightarrow> 'r option) \<Rightarrow> 'r option" where
  "star a [] k = k []"
| "star a (c # cs) k =
     (if accepts a c
      then (case star a cs k of Some r \<Rightarrow> Some r | None \<Rightarrow> k (c # cs))
      else k (c # cs))"

fun match_re :: "string \<Rightarrow> regex \<Rightarrow> string \<Rightarrow> caps \<Rightarrow> (string \<Rightarrow> caps \<Rightarrow> caps option) \<Rightarrow> caps option"
and match_seq :: "string \<Rightarrow> regex list \<Rightarrow> string \<Rightarrow> caps \<Rightarrow> (string \<Rightarrow> caps \<Rightarrow> caps option) \<Rightarrow> caps option"
where
  "match_re subject (One a) s c k =
     (case s of [] \<Rightarrow> None | x # xs \<Rightarrow> if accepts a x then k xs c else None)"
| "match_re subject (Plus a) s c k =
     (case s of [] \<Rightarrow> None | x # xs \<Rightarrow> if accepts a x then star a xs (\<lambda>s'. k s' c) else None)"
| "match_re subject (Star a) s c k = star a s (\<lambda>s'. k s' c)"
| "match_re subject (Group name body) s c k =
     match_seq subject body s c (\<lambda>s' c'. k s' ((name, take (length s - length s') s) # c'))"
| "match_re subject (Opt body) s c k =
     (case match_seq subject body s c k of Some r \<Rightarrow> Some r | None \<Rightarrow> k s c)"
| "match_re subject Bol s c k = (if length s = length subject then k s c else None)"
| "match_re subject Eol s c k = (if s = [] \<or> s = [CHR 0x0A] then k s c else None)"
| "match_seq subject [] s c k = k s c"
| "match_seq subject (r # rs) s c k = match_re subject r s c (\<lambda>s' c'. match_seq subject rs s' c' k)"

fun names :: "regex \<Rightarrow> string list" where
  "names (Group name body) = name # concat (map names body)"
| "names (Opt body) = concat (map names body)"
| "names _ = []"

definition re_match :: "regex list \<Rightarrow> string \<Rightarrow> caps option" where
  \<comment> \<open>\<open>p.match(line)\<close>: the match starts at the first character\<close>
  "re_match p line = match_seq line p line [] (\<lambda>s c. Some c)"

definition groupdict :: "regex list \<Rightarrow> caps \<Rightarrow> (string \<times> string option) list" where
  \<comment> \<open>\<open>m.groupdict()\<close>: every named group in pattern order, \<open>None\<close> when it took no part\<close>
  "groupdict p c = map (\<lambda>n. (n, map_of c n)) (concat (map names p))"

definition lit :: "string \<Rightarrow> regex list" where
  "lit w = map (\<lambda>c. One (Lit c)) w"

definition spaces :: "regex" where
  \<comment> \<open>the pattern \<open> +\<close>\<close>
  "spaces = Plus (Lit CHR 0x20)"


section \<open>Python dictionaries on a heap\<close>

text \<open>
  A Python \<open>dict\<close> is a mutable object: \<open>intf_dict\<close>, \<open>counter_dict\<close> and the entries of
  \<open>result_dict\<close> are references to shared objects. The heap is the list of all dictionaries
  allocated so far, an address is an index into it, and a dictionary is an association
  list in insertion order.
\<close>

datatype pyval = PInt int | PStr string | PRef nat

type_synonym pydict = "(string \<times> pyval) list"

type_synonym heap = "pydict list"

fun dict_set :: "pydict \<Rightarrow> string \<Rightarrow> pyval \<Rightarrow> pydict" where
  \<comment> \<open>\<open>d[k] = v\<close>: a present key keeps its place, a new key goes last\<close>
  "dict_set [] k v = [(k, v)]"
| "dict_set ((k', v') # d) k v =
     (if k' = k then (k', v) # d else (k', v') # dict_set d k v)"

definition dict_update :: "pydict \<Rightarrow> (string \<times> pyval) list \<Rightarrow> pydict" where
  \<comment> \<open>\<open>d.update(other)\<close>, the items of \<open>other\<close> in their order\<close>
  "dict_update d kvs = foldl (\<lambda>d' (k, v). dict_set d' k v) d kvs"

definition update :: "heap \<Rightarrow> nat \<Rightarrow> (string \<times> pyval) list \<Rightarrow> heap" where
  \<comment> \<open>\<open>d.update(other)\<close> for the dictionary at address \<open>a\<close>\<close>
  "update h a kvs = h[a := dict_update (h ! a) kvs]"

definition setdefault :: "heap \<Rightarrow> nat \<Rightarrow> string \<Rightarrow> pyval \<times> heap" where
  \<comment> \<open>\<open>d.setdefault(k, {})\<close>: the value under \<open>k\<close>, or a new empty dictionary stored there\<close>
  "setdefault h a k =
     (case map_of (h ! a) k of
        Some v \<Rightarrow> (v, h)
      | None \<Rightarrow> (PRef (length h), (h @ [[]])[a := h ! a @ [(k, PRef (length h))]]))"

definition bind :: "exn + 'a \<Rightarrow> ('a \<Rightarrow> exn + 'b) \<Rightarrow> exn + 'b" where
  "bind x f = (case x of Inl e \<Rightarrow> Inl e | Inr y \<Rightarrow> f y)"

definition load :: "pyval option \<Rightarrow> exn + pyval" where
  \<comment> \<open>reading a local variable that may not have been assigned yet\<close>
  "load var = (case var of None \<Rightarrow> Inl UnboundLocalError | Some v \<Rightarrow> Inr v)"

definition as_dict :: "pyval \<Rightarrow> exn + nat" where
  \<comment> \<open>looking up a \<open>dict\<close> method on a value\<close>
  "as_dict v = (case v of PRef a \<Rightarrow> Inr a | _ \<Rightarrow> Inl AttributeError)"

fun traverse :: "('a \<Rightarrow> exn + 'b) \<Rightarrow> 'a list \<Rightarrow> exn + 'b list" where
  \<comment> \<open>a comprehension whose element expression may raise\<close>
  "traverse f [] = Inr []"
| "traverse f (x # xs) = bind (f x) (\<lambda>y. bind (traverse f xs) (\<lambda>ys. Inr (y # ys)))"

section \<open>The parser of \<open>ifconfig\<close>\<close>

definition p1 :: "regex list" where
  "p1 = [Bol, Group ''interface'' [Plus NonSpace]] @ lit '':'' @ [spaces] @ lit ''flags=''
        @ [Group ''flags'' [Plus NonSpace], spaces] @ lit ''mtu''
        @ [spaces, Group ''mtu'' [Plus Digit], Eol]"

definition p2 :: "regex list" where
  "p2 = [Bol] @ lit ''inet'' @ [spaces, Group ''ip'' [Plus NonSpace], spaces] @ lit ''netmask''
        @ [spaces, Group ''netmask'' [Plus NonSpace], spaces] @ lit ''broadcast''
        @ [spaces, Group ''broadcast'' [Plus NonSpace], Eol]"

definition p3 :: "regex list" where
  "p3 = [Bol] @ lit ''inet6'' @ [spaces, Group ''ip'' [Plus NonSpace], spaces]
        @ lit ''prefixlen'' @ [spaces, Group ''prefixlen'' [Plus Digit], spaces]
        @ lit ''scopeid'' @ [spaces, Group ''scopeid'' [Plus NonSpace], Eol]"

definition p4 :: "regex list" where
  "p4 = [Bol, Group ''type'' [Plus NonSpace],
         Opt [spaces, Group ''mac'' [Plus NonSpace]],
         Opt ([spaces] @ lit ''txqueuelen'' @ [spaces, Group ''txqueuelen'' [Plus Digit]]),
         spaces] @ lit ''('' @ [Group ''destription'' [Star Dot]] @ lit '')'' @ [Eol]"

definition p5 :: "regex list" where
  "p5 = [Bol] @ lit ''RX'' @ [spaces] @ lit ''packets'' @ [spaces, Group ''rx_pkts'' [Plus Digit],
         spaces] @ lit ''bytes'' @ [spaces, Group ''rx_bytes'' [Plus Digit], spaces]
        @ lit ''('' @ [Group ''rx_value'' [Star Dot]] @ lit '')'' @ [Eol]"

definition p6 :: "regex list" where
  "p6 = [Bol] @ lit ''RX'' @ [spaces] @ lit ''errors'' @ [spaces, Group ''rx_errors'' [Plus Digit],
         spaces] @ lit ''dropped'' @ [spaces, Group ''rx_dropped'' [Plus Digit], spaces]
        @ lit ''overruns'' @ [spaces, Group ''rx_overruns'' [Plus Digit], spaces]
        @ lit ''frame'' @ [spaces, Group ''rx_frame'' [Plus Digit], Eol]"

definition p7 :: "regex list" where
  "p7 = [Bol] @ lit ''TX'' @ [spaces] @ lit ''packets'' @ [spaces, Group ''tx_pkts'' [Plus Digit],
         spaces] @ lit ''bytes'' @ [spaces, Group ''tx_bytes'' [Plus Digit], spaces]
        @ lit ''('' @ [Group ''tx_value'' [Star Dot]] @ lit '')'' @ [Eol]"

definition p8 :: "regex list" where
  "p8 = [Bol] @ lit ''TX'' @ [spaces] @ lit ''errors'' @ [spaces, Group ''tx_errors'' [Plus Digit],
         spaces] @ lit ''dropped'' @ [spaces, Group ''tx_dropped'' [Plus Digit], spaces]
        @ lit ''overruns'' @ [spaces, Group ''tx_overruns'' [Plus Digit], spaces]
        @ lit ''carrier'' @ [spaces, Group ''tx_carrier'' [Plus Digit], spaces]
        @ lit ''collisions'' @ [spaces, Group ''tx_collisions'' [Plus Digit], Eol]"

definition p9 :: "regex list" where
  "p9 = [Bol] @ lit ''device''
        @ [Opt ([spaces] @ lit ''interrupt'' @ [spaces, Group ''device_interrupt'' [Plus Digit]]),
           spaces] @ lit ''memory'' @ [spaces, Group ''device_memory'' [Plus NonSpace], Eol]"

type_synonym groups = "(string \<times> string option) list"

definition item :: "groups \<Rightarrow> string \<Rightarrow> string option" where
  \<comment> \<open>\<open>group[name]\<close>; the name is always one of the pattern's groups\<close>
  "item g name = (case map_of g name of Some v \<Rightarrow> v | None \<Rightarrow> None)"

definition truthy :: "string option \<Rightarrow> bool" where
  \<comment> \<open>\<open>if v:\<close> for a value that is a string or \<open>None\<close>\<close>
  "truthy v = (case v of None \<Rightarrow> False | Some s \<Rightarrow> s \<noteq> [])"

definition int_or_str :: "string \<times> string option \<Rightarrow> exn + string \<times> pyval" where
  \<comment> \<open>\<open>k: (int(v) if v.isdigit() else v)\<close>\<close>
  "int_or_str kv =
     (case snd kv of
        None \<Rightarrow> Inl AttributeError
      | Some v \<Rightarrow>
          if isdigit v then bind (py_int v) (\<lambda>i. Inr (fst kv, PInt i))
          else Inr (fst kv, PStr v))"

definition to_int :: "string \<times> string option \<Rightarrow> exn + string \<times> pyval" where
  \<comment> \<open>\<open>k: int(v)\<close>\<close>
  "to_int kv =
     (case snd kv of
        None \<Rightarrow> Inl TypeError
      | Some v \<Rightarrow> bind (py_int v) (\<lambda>i. Inr (fst kv, PInt i)))"

definition as_str :: "string option \<Rightarrow> exn + string" where
  \<comment> \<open>the capture of a group that takes part in every match of its pattern; the
      \<open>None\<close> case keeps the model total and is never taken (lemmas \<open>match_captures\<close>
      and \<open>mandatory_groups\<close>)\<close>
  "as_str v = (case v of None \<Rightarrow> Inl TypeError | Some s \<Rightarrow> Inr s)"

definition keep :: "string \<times> string option \<Rightarrow> exn + string \<times> pyval" where
  \<comment> \<open>\<open>k: v\<close>\<close>
  "keep kv = bind (as_str (snd kv)) (\<lambda>v. Inr (fst kv, PStr v))"

record state =
  heap :: heap
  result_dict :: nat
  intf_dict :: "pyval option"
  counter_dict :: "pyval option"

definition on_p1 :: "state \<Rightarrow> groups \<Rightarrow> exn + state" where
  "on_p1 st grp =
     bind (as_str (item grp ''interface'')) (\<lambda>interface.
     case setdefault (heap st) (result_dict st) interface of (intf, h) \<Rightarrow>
     bind (as_dict intf) (\<lambda>a.
     bind (traverse int_or_str grp) (\<lambda>kvs.
     Inr (st\<lparr>heap := update h a kvs, intf_dict := Some intf\<rparr>))))"

definition on_p2 :: "state \<Rightarrow> groups \<Rightarrow> exn + state" where
  "on_p2 st grp =
     bind (as_str (item grp ''ip'')) (\<lambda>ip.
     bind (load (intf_dict st)) (\<lambda>intf.
     bind (as_dict intf) (\<lambda>a.
     case setdefault (heap st) a ''ipv4'' of (ipv4, h) \<Rightarrow>
     bind (as_dict ipv4) (\<lambda>b.
     case setdefault h b ip of (ipv4_dict, h') \<Rightarrow>
     bind (as_dict ipv4_dict) (\<lambda>c.
     bind (traverse keep grp) (\<lambda>kvs.
     Inr (st\<lparr>heap := update h' c kvs\<rparr>)))))))"

definition on_p3 :: "state \<Rightarrow> groups \<Rightarrow> exn + state" where
  "on_p3 st grp =
     bind (as_str (item grp ''ip'')) (\<lambda>ip.
     bind (load (intf_dict st)) (\<lambda>intf.
     bind (as_dict intf) (\<lambda>a.
     case setdefault (heap st) a ''ipv6'' of (ipv6, h) \<Rightarrow>
     bind (as_dict ipv6) (\<lambda>b.
     case setdefault h b ip of (ipv6_dict, h') \<Rightarrow>
     bind (as_dict ipv6_dict) (\<lambda>c.
     bind (traverse int_or_str grp) (\<lambda>kvs.
     Inr (st\<lparr>heap := update h' c kvs\<rparr>)))))))"

definition on_p4 :: "state \<Rightarrow> groups \<Rightarrow> exn + state" where
  "on_p4 st grp =
     bind (load (intf_dict st)) (\<lambda>intf.
     bind (as_dict intf) (\<lambda>a.
     bind (as_str (item grp ''type'')) (\<lambda>type.
     bind (as_str (item grp ''destription'')) (\<lambda>destription.
     let h = update (heap st) a [(''type'', PStr type), (''destription'', PStr destription)];
         mac = item grp ''mac'';
         txqueuelen = item grp ''txqueuelen'';
         h' = (if truthy mac then update h a [(''mac'', PStr (the mac))] else h)
     in if truthy txqueuelen
        then bind (py_int (the txqueuelen)) (\<lambda>i.
             Inr (st\<lparr>heap := update h' a [(''txqueuelen'', PInt i)]\<rparr>))
        else Inr (st\<lparr>heap := h'\<rparr>)))))"

definition on_p5 :: "state \<Rightarrow> groups \<Rightarrow> exn + state" where
  "on_p5 st grp =
     bind (load (intf_dict st)) (\<lambda>intf.
     bind (as_dict intf) (\<lambda>a.
     case setdefault (heap st) a ''counters'' of (counter, h) \<Rightarrow>
     bind (as_dict counter) (\<lambda>c.
     bind (traverse int_or_str grp) (\<lambda>kvs.
     Inr (st\<lparr>heap := update h c kvs, counter_dict := Some counter\<rparr>)))))"

definition on_p6 :: "state \<Rightarrow> groups \<Rightarrow> exn + state" where
  "on_p6 st grp =
     bind (load (counter_dict st)) (\<lambda>counter.
     bind (as_dict counter) (\<lambda>c.
     bind (traverse to_int grp) (\<lambda>kvs.
     Inr (st\<lparr>heap := update (heap st) c kvs\<rparr>))))"

definition on_p7 :: "state \<Rightarrow> groups \<Rightarrow> exn + state" where
  "on_p7 st grp =
     bind (load (counter_dict st)) (\<lambda>counter.
     bind (as_dict counter) (\<lambda>c.
     bind (traverse int_or_str grp) (\<lambda>kvs.
     Inr (st\<lparr>heap := update (heap st) c kvs\<rparr>))))"

definition on_p8 :: "state \<Rightarrow> groups \<Rightarrow> exn + state" where
  "on_p8 st grp =
     bind (load (counter_dict st)) (\<lambda>counter.
     bind (as_dict counter) (\<lambda>c.
     bind (traverse to_int grp) (\<lambda>kvs.
     Inr (st\<lparr>heap := update (heap st) c kvs\<rparr>))))"

definition on_p9 :: "state \<Rightarrow> groups \<Rightarrow> exn + state" where
  "on_p9 st grp =
     (let interrupt = item grp ''device_interrupt'';
          memory = item grp ''device_memory''
      in bind (if truthy interrupt
               then bind (load (intf_dict st)) (\<lambda>intf.
                    bind (as_dict intf) (\<lambda>a.
                    bind (py_int (the interrupt)) (\<lambda>i.
                    Inr (st\<lparr>heap := update (heap st) a [(''device_interrupt'', PInt i)]\<rparr>))))
               else Inr st) (\<lambda>st'.
         if truthy memory
         then bind (load (intf_dict st')) (\<lambda>intf.
              bind (as_dict intf) (\<lambda>a.
              Inr (st'\<lparr>heap := update (heap st') a [(''device_memory'', PStr (the memory))]\<rparr>)))
         else Inr st'))"

definition process_line :: "state \<Rightarrow> string \<Rightarrow> exn + state" where
  \<comment> \<open>the body of the loop over \<open>out.splitlines()\<close>\<close>
  "process_line st line0 =
     (let line = strip (replace_char CHR 0x09 ''    '' line0) in
      if line = [] then Inr st
      else case re_match p1 line of Some c \<Rightarrow> on_p1 st (groupdict p1 c) | None \<Rightarrow>
           case re_match p2 line of Some c \<Rightarrow> on_p2 st (groupdict p2 c) | None \<Rightarrow>
           case re_match p3 line of Some c \<Rightarrow> on_p3 st (groupdict p3 c) | None \<Rightarrow>
           case re_match p4 line of Some c \<Rightarrow> on_p4 st (groupdict p4 c) | None \<Rightarrow>
           case re_match p5 line of Some c \<Rightarrow> on_p5 st (groupdict p5 c) | None \<Rightarrow>
           case re_match p6 line of Some c \<Rightarrow> on_p6 st (groupdict p6 c) | None \<Rightarrow>
           case re_match p7 line of Some c \<Rightarrow> on_p7 st (groupdict p7 c) | None \<Rightarrow>
           case re_match p8 line of Some c \<Rightarrow> on_p8 st (groupdict p8 c) | None \<Rightarrow>
           case re_match p9 line of Some c \<Rightarrow> on_p9 st (groupdict p9 c) | None \<Rightarrow>
           Inr st)"

fun process_lines :: "state \<Rightarrow> string list \<Rightarrow> exn + state" where
  "process_lines st [] = Inr st"
| "process_lines st (line # lines) = bind (process_line st line) (\<lambda>st'. process_lines st' lines)"

definition init :: state where
  \<comment> \<open>\<open>result_dict = {}\<close>; \<open>intf_dict\<close> and \<open>counter_dict\<close> are not assigned yet\<close>
  "init = \<lparr>heap = [[]], result_dict = 0, intf_dict = None, counter_dict = None\<rparr>"

definition parse :: "string \<Rightarrow> exn + heap \<times> nat" where
  \<comment> \<open>from \<open>result_dict = {}\<close> to \<open>return result_dict\<close>\<close>
  "parse out = bind (process_lines init (splitlines out))
                 (\<lambda>st. Inr (heap st, result_dict st))"


definition cli ::
  "('dev \<Rightarrow> string \<Rightarrow> (exn + string) \<times> 'dev) \<Rightarrow> 'dev \<Rightarrow> string option \<Rightarrow> string option
     \<Rightarrow> (exn + heap \<times> nat) \<times> 'dev" where
  \<comment> \<open>\<open>Ifconfig.cli(self, interface=None, output=None)\<close>. The device is a state of type
      \<open>'dev\<close>; \<open>execute\<close> is \<open>self.device.execute\<close>: it returns the command's output, or
      raises, and the device's next state. The result is the heap with the address of
      \<open>result_dict\<close> in it.\<close>
  "cli execute device interface output =
     (case output of
        None \<Rightarrow>
          (let cmd = (if truthy interface then ''ifconfig '' @ the interface else ''ifconfig'')
           in case execute device cmd of (out, device') \<Rightarrow> (bind out parse, device'))
      | Some out \<Rightarrow> (parse out, device))"

section \<open>Values\<close>

text \<open>
  Modelled from the spec: the Value model of the schema engine
  (\<open>genie.metaparser.util.schemaengine\<close> is not among the source files). A Value is a
  scalar (string, integer, float, boolean), a sequence, or a mapping from keys to Values.
\<close>

datatype pyfloat = Finite bool nat int | Infinite bool | NaN

datatype "value" =
    VStr string
  | VInt int
  | VFloat pyfloat
  | VBool bool
  | Sequence "value list"
  | Mapping "(string \<times> value) list"

text \<open>
  What a caller reads from a dictionary on the heap: the nested Value below an address.
  The fuel bounds the nesting depth; \<open>snapshot\<close> gives as much fuel as there are objects.
\<close>

fun reify :: "nat \<Rightarrow> heap \<Rightarrow> pyval \<Rightarrow> value option"
and reify_items :: "nat \<Rightarrow> heap \<Rightarrow> pydict \<Rightarrow> (string \<times> value) list option" where
  "reify n h (PInt i) = Some (VInt i)"
| "reify n h (PStr s) = Some (VStr s)"
| "reify 0 h (PRef a) = None"
| "reify (Suc n) h (PRef a) =
     (if a < length h then map_option Mapping (reify_items n h (h ! a)) else None)"
| "reify_items n h [] = Some []"
| "reify_items n h (kv # d) =
     (case reify n h (snd kv) of
        None \<Rightarrow> None
      | Some x \<Rightarrow> map_option ((#) (fst kv, x)) (reify_items n h d))"

definition snapshot :: "heap \<Rightarrow> nat \<Rightarrow> value option" where
  "snapshot h r = reify (length h) h (PRef r)"

section \<open>Schema descriptors and validation\<close>

text \<open>
  Modelled from the spec: the Schema Descriptor model, the Key Resolution Policy and the
  Matcher Engine (sections 3 and 4 of the specification). The engine's code is not among
  the source files; the schemas below are.
\<close>

datatype kind = KString | KInt | KFloat | KBool

datatype shape = Scalar kind | SequenceShape | MappingShape

datatype key_matcher = Literal string | Optional string | Wildcard

datatype descriptor =
    ScalarType kind
  | SequenceOf descriptor
  | MappingOf "(key_matcher \<times> descriptor \<times> bool) list"

datatype path_elem = Key string | Index nat

type_synonym path = "path_elem list"

datatype path_error =
    TypeMismatch path kind shape
  | ShapeMismatch path shape
  | MissingRequiredKey path string
  | UnexpectedKey path string

record validation_result =
  ok :: bool
  errors :: "path_error list"

fun shape_of :: "value \<Rightarrow> shape" where
  "shape_of (VStr _) = Scalar KString"
| "shape_of (VInt _) = Scalar KInt"
| "shape_of (VFloat _) = Scalar KFloat"
| "shape_of (VBool _) = Scalar KBool"
| "shape_of (Sequence _) = SequenceShape"
| "shape_of (Mapping _) = MappingShape"

fun declared :: "key_matcher \<Rightarrow> string list" where
  \<comment> \<open>the key name a Literal or Optional matcher claims\<close>
  "declared (Literal name) = [name]"
| "declared (Optional name) = [name]"
| "declared Wildcard = []"

fun validate_at :: "path \<Rightarrow> value \<Rightarrow> descriptor \<Rightarrow> path_error list" where
  "validate_at p v (ScalarType k) =
     (if shape_of v = Scalar k then [] else [TypeMismatch p k (shape_of v)])"
| "validate_at p v (SequenceOf d) =
     (case v of
        Sequence xs \<Rightarrow>
          concat (map (\<lambda>(i, x). validate_at (p @ [Index i]) x d) (zip [0..<length xs] xs))
      | _ \<Rightarrow> [ShapeMismatch p SequenceShape])"
| "validate_at p v (MappingOf specs) =
     (case v of
        Mapping m \<Rightarrow>
          concat (map (\<lambda>(km, d, required).
              case km of
                Literal name \<Rightarrow>
                  (case map_of m name of
                     Some x \<Rightarrow> validate_at (p @ [Key name]) x d
                   | None \<Rightarrow> [MissingRequiredKey p name])
              | Optional name \<Rightarrow>
                  (case map_of m name of
                     Some x \<Rightarrow> validate_at (p @ [Key name]) x d
                   | None \<Rightarrow> [])
              | Wildcard \<Rightarrow> []) specs)
          @ concat (map (\<lambda>(k, x).
              if k \<in> set (concat (map (\<lambda>(km, d, required). declared km) specs)) then []
              else case concat (map (\<lambda>(km, d, required).
                            if km = Wildcard then [validate_at (p @ [Key k]) x d] else []) specs) of
                     [] \<Rightarrow> [UnexpectedKey p k]
                   | es # _ \<Rightarrow> es) m)
      | _ \<Rightarrow> [ShapeMismatch p MappingShape])"

definition validate :: "value \<Rightarrow> descriptor \<Rightarrow> validation_result" where
  "validate v d = \<lparr>ok = (validate_at [] v d = []), errors = validate_at [] v d\<rparr>"

fun well_formed :: "descriptor \<Rightarrow> bool" where
  \<comment> \<open>the construction invariants: at most one Wildcard per mapping level, and the
      Literal and Optional names of one level are distinct\<close>
  "well_formed (ScalarType k) = True"
| "well_formed (SequenceOf d) = well_formed d"
| "well_formed (MappingOf specs) =
     (length (filter (\<lambda>(km, d, required). km = Wildcard) specs) \<le> 1
      \<and> distinct (concat (map (\<lambda>(km, d, required). declared km) specs))
      \<and> list_all (\<lambda>(km, d, required). well_formed d) specs)"

subsection \<open>The schemas of the source\<close>

definition lit_key :: "string \<Rightarrow> descriptor \<Rightarrow> key_matcher \<times> descriptor \<times> bool" where
  \<comment> \<open>\<open>'name': d\<close>\<close>
  "lit_key name d = (Literal name, d, True)"

definition opt_key :: "string \<Rightarrow> descriptor \<Rightarrow> key_matcher \<times> descriptor \<times> bool" where
  \<comment> \<open>\<open>Optional('name'): d\<close>\<close>
  "opt_key name d = (Optional name, d, False)"

definition any_key :: "descriptor \<Rightarrow> key_matcher \<times> descriptor \<times> bool" where
  \<comment> \<open>\<open>Any(): d\<close>\<close>
  "any_key d = (Wildcard, d, False)"

definition IfconfigSchema :: descriptor where
  "IfconfigSchema = MappingOf [
     any_key (MappingOf [
       lit_key ''interface'' (ScalarType KString),
       lit_key ''flags'' (ScalarType KString),
       lit_key ''mtu'' (ScalarType KInt),
       opt_key ''ipv4'' (MappingOf [
         any_key (MappingOf [
           lit_key ''ip'' (ScalarType KString),
           lit_key ''netmask'' (ScalarType KString),
           lit_key ''broadcast'' (ScalarType KString)])]),
       opt_key ''ipv6'' (MappingOf [
         any_key (MappingOf [
           lit_key ''ip'' (ScalarType KString),
           lit_key ''prefixlen'' (ScalarType KInt),
           lit_key ''scopeid'' (ScalarType KString)])]),
       lit_key ''type'' (ScalarType KString),
       opt_key ''txqueuelen'' (ScalarType KInt),
       opt_key ''mac'' (ScalarType KString),
       lit_key ''destription'' (ScalarType KString),
       lit_key ''counters'' (MappingOf [
         lit_key ''rx_pkts'' (ScalarType KInt),
         lit_key ''rx_bytes'' (ScalarType KInt),
         lit_key ''rx_value'' (ScalarType KString),
         lit_key ''rx_errors'' (ScalarType KInt),
         lit_key ''rx_dropped'' (ScalarType KInt),
         lit_key ''rx_overruns'' (ScalarType KInt),
         lit_key ''rx_frame'' (ScalarType KInt),
         lit_key ''tx_pkts'' (ScalarType KInt),
         lit_key ''tx_bytes'' (ScalarType KInt),
         lit_key ''tx_value'' (ScalarType KString),
         lit_key ''tx_errors'' (ScalarType KInt),
         lit_key ''tx_dropped'' (ScalarType KInt),
         lit_key ''tx_overruns'' (ScalarType KInt),
         lit_key ''tx_carrier'' (ScalarType KInt),
         lit_key ''tx_collisions'' (ScalarType KInt)]),
       opt_key ''device_interrupt'' (ScalarType KInt),
       opt_key ''device_memory'' (ScalarType KString)])]"

definition AnalyticsAsmbypassReportresultsSchema :: descriptor where
  \<comment> \<open>\<open>schema = {}\<close>\<close>
  "AnalyticsAsmbypassReportresultsSchema = MappingOf []"

section \<open>The REST reader of \<open>/mgmt/tm/analytics/asm-bypass/report-results\<close>\<close>

datatype json =
    JNull
  | JBool bool
  | JInt int
  | JFloat pyfloat
  | JStr string
  | JList "json list"
  | JDict "(string \<times> json) list"

fun float_truthy :: "pyfloat \<Rightarrow> bool" where
  "float_truthy (Finite negative mantissa exponent) = (mantissa \<noteq> 0)"
| "float_truthy (Infinite negative) = True"
| "float_truthy NaN = True"

fun json_truthy :: "json \<Rightarrow> bool" where
  \<comment> \<open>Python's truth value of a decoded JSON document\<close>
  "json_truthy JNull = False"
| "json_truthy (JBool b) = b"
| "json_truthy (JInt i) = (i \<noteq> 0)"
| "json_truthy (JFloat x) = float_truthy x"
| "json_truthy (JStr s) = (s \<noteq> [])"
| "json_truthy (JList xs) = (xs \<noteq> [])"
| "json_truthy (JDict d) = (d \<noteq> [])"

definition cli_command :: string where
  "cli_command = ''/mgmt/tm/analytics/asm-bypass/report-results''"

definition rest ::
  "('dev \<Rightarrow> string \<Rightarrow> (exn + json) \<times> 'dev) \<Rightarrow> 'dev \<Rightarrow> (exn + json) \<times> 'dev" where
  \<comment> \<open>\<open>AnalyticsAsmbypassReportresults.rest(self)\<close>. \<open>get\<close> is \<open>self.device.get\<close> followed
      by \<open>response.json()\<close>: the decoded document, or an exception, and the device's
      next state.\<close>
  "rest get device =
     (case get device cli_command of (response_json, device') \<Rightarrow>
        (bind response_json (\<lambda>response_json.
           if \<not> json_truthy response_json then Inr (JDict []) else Inr response_json),
         device'))"


section \<open>Integer fields of the result\<close>

text \<open>
  The fields \<open>IfconfigSchema\<close> declares as \<open>int\<close>, level by level: three keys of an
  interface record, \<open>prefixlen\<close> of an \<open>ipv6\<close> address record, and thirteen counters.
\<close>

definition intf_int_keys :: "string list" where
  "intf_int_keys = [''mtu'', ''txqueuelen'', ''device_interrupt'']"

definition ipv6_int_keys :: "string list" where
  "ipv6_int_keys = [''prefixlen'']"

definition counters_int_keys :: "string list" where
  "counters_int_keys =
     [''rx_pkts'', ''rx_bytes'', ''rx_errors'', ''rx_dropped'', ''rx_overruns'', ''rx_frame'',
      ''tx_pkts'', ''tx_bytes'', ''tx_errors'', ''tx_dropped'', ''tx_overruns'', ''tx_carrier'',
      ''tx_collisions'']"

fun is_int :: "value \<Rightarrow> bool" where
  "is_int (VInt i) = True"
| "is_int _ = False"

fun ints_at :: "string list \<Rightarrow> value \<Rightarrow> bool" where
  \<comment> \<open>a mapping whose values under the given keys are integers\<close>
  "ints_at ks (Mapping m) = list_all (\<lambda>(k, x). k \<in> set ks \<longrightarrow> is_int x) m"
| "ints_at ks _ = False"

fun each_entry :: "(value \<Rightarrow> bool) \<Rightarrow> value \<Rightarrow> bool" where
  \<comment> \<open>a mapping all of whose values satisfy \<open>P\<close>\<close>
  "each_entry P (Mapping m) = list_all (\<lambda>(k, x). P x) m"
| "each_entry P _ = False"

fun under :: "string \<Rightarrow> (value \<Rightarrow> bool) \<Rightarrow> value \<Rightarrow> bool" where
  \<comment> \<open>a mapping whose value under the key, if there is one, satisfies \<open>P\<close>\<close>
  "under key P (Mapping m) = list_all (\<lambda>(k, x). k = key \<longrightarrow> P x) m"
| "under key P _ = False"

definition int_fields_ok :: "value \<Rightarrow> bool" where
  \<comment> \<open>the result maps each interface name to a record whose \<open>int\<close> fields, at every level,
      hold integers\<close>
  "int_fields_ok v =
     each_entry (\<lambda>i. ints_at intf_int_keys i
                   \<and> under ''ipv6'' (each_entry (ints_at ipv6_int_keys)) i
                   \<and> under ''counters'' (ints_at counters_int_keys) i) v"

subsection \<open>The shape of the heap\<close>

text \<open>
  Every dictionary the parser allocates plays one role: the result, an interface record,
  the \<open>ipv4\<close> or \<open>ipv6\<close> table of an interface, an address record of either, or a record of
  counters. A key holds a reference exactly where \<open>child\<close> says so, and then to a younger
  dictionary of that role; elsewhere it holds a string or an integer, an integer under the
  keys of \<open>int_keys\<close>.
\<close>

datatype role = RResult | RIntf | RFam4 | RAddr4 | RFam6 | RAddr6 | RCounters

fun child :: "role \<Rightarrow> string \<Rightarrow> role option" where
  "child RResult k = Some RIntf"
| "child RIntf k =
     (if k = ''ipv4'' then Some RFam4 else if k = ''ipv6'' then Some RFam6
      else if k = ''counters'' then Some RCounters else None)"
| "child RFam4 k = Some RAddr4"
| "child RFam6 k = Some RAddr6"
| "child _ k = None"

fun int_keys :: "role \<Rightarrow> string list" where
  "int_keys RIntf = intf_int_keys"
| "int_keys RAddr6 = ipv6_int_keys"
| "int_keys RCounters = counters_int_keys"
| "int_keys _ = []"

fun points_to :: "role list \<Rightarrow> nat \<Rightarrow> role \<Rightarrow> pyval \<Rightarrow> bool" where
  "points_to rs a r (PRef b) = (a < b \<and> b < length rs \<and> rs ! b = r)"
| "points_to rs a r _ = False"

fun is_pint :: "pyval \<Rightarrow> bool" where
  "is_pint (PInt i) = True"
| "is_pint _ = False"

fun scalar :: "pyval \<Rightarrow> bool" where
  "scalar (PRef b) = False"
| "scalar _ = True"

definition field_ok :: "role list \<Rightarrow> nat \<Rightarrow> role \<Rightarrow> string \<times> pyval \<Rightarrow> bool" where
  "field_ok rs a r kv =
     (case child r (fst kv) of
        Some r' \<Rightarrow> points_to rs a r' (snd kv)
      | None \<Rightarrow> scalar (snd kv) \<and> (fst kv \<in> set (int_keys r) \<longrightarrow> is_pint (snd kv)))"

definition typed :: "role list \<Rightarrow> heap \<Rightarrow> bool" where
  "typed rs h =
     (length rs = length h \<and> (\<forall>a < length h. \<forall>kv \<in> set (h ! a). field_ok rs a (rs ! a) kv))"

definition has_role :: "role list \<Rightarrow> role \<Rightarrow> pyval \<Rightarrow> bool" where
  "has_role rs r v = (\<exists>a. v = PRef a \<and> a < length rs \<and> rs ! a = r)"

definition inv :: "role list \<Rightarrow> state \<Rightarrow> bool" where
  "inv rs st =
     (typed rs (heap st)
      \<and> has_role rs RResult (PRef (result_dict st))
      \<and> (\<forall>v. intf_dict st = Some v \<longrightarrow> has_role rs RIntf v)
      \<and> (\<forall>v. counter_dict st = Some v \<longrightarrow> has_role rs RCounters v))"

fun value_ok :: "role \<Rightarrow> value \<Rightarrow> bool" where
  "value_ok RResult v = each_entry (\<lambda>i. ints_at intf_int_keys i
       \<and> under ''ipv6'' (each_entry (ints_at ipv6_int_keys)) i
       \<and> under ''counters'' (ints_at counters_int_keys) i) v"
| "value_ok RIntf v = (ints_at intf_int_keys v
       \<and> under ''ipv6'' (each_entry (ints_at ipv6_int_keys)) v
       \<and> under ''counters'' (ints_at counters_int_keys) v)"
| "value_ok RFam4 v = each_entry (\<lambda>x. True) v"
| "value_ok RAddr4 v = each_entry (\<lambda>x. True) v"
| "value_ok RFam6 v = each_entry (ints_at ipv6_int_keys) v"
| "value_ok RAddr6 v = ints_at ipv6_int_keys v"
| "value_ok RCounters v = ints_at counters_int_keys v"

subsection \<open>What a match captures\<close>

text \<open>
  \<open>digits_only N r\<close>: every group of \<open>r\<close> named in \<open>N\<close> is exactly \<open>\d+\<close>.
  \<open>binds r\<close>: the groups of \<open>r\<close> outside any optional part; they take part in every match.
\<close>

fun digits_only :: "string list \<Rightarrow> regex \<Rightarrow> bool" where
  "digits_only N (Group name body) =
     ((name \<in> set N \<longrightarrow> body = [Plus Digit]) \<and> list_all (digits_only N) body)"
| "digits_only N (Opt body) = list_all (digits_only N) body"
| "digits_only N _ = True"

fun binds :: "regex \<Rightarrow> string list" where
  "binds (Group name body) = name # concat (map binds body)"
| "binds _ = []"

definition int_names :: "string list" where
  "int_names = intf_int_keys @ ipv6_int_keys @ counters_int_keys"

definition digit_caps :: "caps \<Rightarrow> bool" where
  \<comment> \<open>every capture of a group named in \<open>int_names\<close> is a non-empty string of decimals\<close>
  "digit_caps c = (\<forall>n \<in> set int_names. \<forall>v. map_of c n = Some v \<longrightarrow> v \<noteq> [] \<and> list_all is_decimal v)"

subsection \<open>A sample output\<close>

text \<open>The example lines of the parser's own comments, as one output of two interfaces.\<close>

definition sample_output :: string where
  "sample_output =
     ''enp0s31f6: flags=4163<UP,BROADCAST,RUNNING,MULTICAST>  mtu 1500\<newline>''
     @ ''        inet 192.168.100.51  netmask 255.255.255.0  broadcast 192.168.100.255\<newline>''
     @ ''        inet6 fe80::39:1a5c:726d:b23e  prefixlen 64  scopeid 0x20<link>\<newline>''
     @ ''        ether 48:2a:e3:ff:58:55  txqueuelen 1000  (Ethernet)\<newline>''
     @ ''        RX packets 66766  bytes 4274334 (4.0 MiB)\<newline>''
     @ ''        RX errors 0  dropped 0  overruns 0  frame 0\<newline>''
     @ ''        TX packets 365916  bytes 67689136 (64.5 MiB)\<newline>''
     @ ''        TX errors 0  dropped 0 overruns 0  carrier 0  collisions 0\<newline>''
     @ ''        device interrupt 16  memory 0xe9200000-e9220000\<newline>''
     @ ''\<newline>''
     @ ''lo: flags=73<UP,LOOPBACK,RUNNING>  mtu 65536\<newline>''
     @ ''        loop  txqueuelen 1000  (Local Loopback)\<newline>''"

definition sample_heap :: heap where
  "sample_heap =
     [[(''enp0s31f6'', PRef 1), (''lo'', PRef 7)],
      [(''interface'', PStr ''enp0s31f6''),
       (''flags'', PStr ''4163<UP,BROADCAST,RUNNING,MULTICAST>''),
       (''mtu'', PInt 1500), (''ipv4'', PRef 2), (''ipv6'', PRef 4),
       (''type'', PStr ''ether''), (''destription'', PStr ''Ethernet''),
       (''mac'', PStr ''48:2a:e3:ff:58:55''), (''txqueuelen'', PInt 1000),
       (''counters'', PRef 6), (''device_interrupt'', PInt 16),
       (''device_memory'', PStr ''0xe9200000-e9220000'')],
      [(''192.168.100.51'', PRef 3)],
      [(''ip'', PStr ''192.168.100.51''), (''netmask'', PStr ''255.255.255.0''),
       (''broadcast'', PStr ''192.168.100.255'')],
      [(''fe80::39:1a5c:726d:b23e'', PRef 5)],
      [(''ip'', PStr ''fe80::39:1a5c:726d:b23e''), (''prefixlen'', PInt 64),
       (''scopeid'', PStr ''0x20<link>'')],
      [(''rx_pkts'', PInt 66766), (''rx_bytes'', PInt 4274334),
       (''rx_value'', PStr ''4.0 MiB''), (''rx_errors'', PInt 0), (''rx_dropped'', PInt 0),
       (''rx_overruns'', PInt 0), (''rx_frame'', PInt 0), (''tx_pkts'', PInt 365916),
       (''tx_bytes'', PInt 67689136), (''tx_value'', PStr ''64.5 MiB''),
       (''tx_errors'', PInt 0), (''tx_dropped'', PInt 0), (''tx_overruns'', PInt 0),
       (''tx_carrier'', PInt 0), (''tx_collisions'', PInt 0)],
      [(''interface'', PStr ''lo''), (''flags'', PStr ''73<UP,LOOPBACK,RUNNING>''),
       (''mtu'', PInt 65536), (''type'', PStr ''loop''),
       (''destription'', PStr ''Local Loopback''), (''txqueuelen'', PInt 1000)]]"

section \<open>What a match captures\<close>

text \<open>
  A successful run of the matcher calls its continuation on a suffix of the input that a
  repetition left, with the captures made on the way.
\<close>

lemma star_sound:
  "star a s k = Some res \<Longrightarrow>
     \<exists>n \<le> length s. list_all (accepts a) (take n s) \<and> k (drop n s) = Some res"
proof (induction s)
  case Nil
  then show ?case by simp
next
  case (Cons x xs)
  show ?case
  proof (cases "accepts a x \<and> star a xs k \<noteq> None")
    case True
    then obtain r where r: "star a xs k = Some r" by auto
    with Cons.prems True have "r = res" by simp
    with r Cons.IH obtain n where "n \<le> length xs" "list_all (accepts a) (take n xs)"
      "k (drop n xs) = Some res" by blast
    with True show ?thesis by (intro exI [of _ "Suc n"]) simp
  next
    case False
    with Cons.prems have "k (x # xs) = Some res" by (auto split: if_splits option.splits)
    then show ?thesis by (intro exI [of _ 0]) simp
  qed
qed

lemma digit_caps_other: "digit_caps c \<Longrightarrow> name \<notin> set int_names \<Longrightarrow> digit_caps ((name, t) # c)"
  by (auto simp: digit_caps_def)

lemma digit_caps_digits:
  "digit_caps c \<Longrightarrow> t \<noteq> [] \<Longrightarrow> list_all is_decimal t \<Longrightarrow> digit_caps ((name, t) # c)"
  by (auto simp: digit_caps_def)

lemma match_digit_caps:
  "match_re subject r s c k = Some res \<Longrightarrow> digits_only int_names r \<Longrightarrow> digit_caps c \<Longrightarrow>
     \<exists>s' c'. digit_caps c' \<and> k s' c' = Some res"
  "match_seq subject rs s c k = Some res \<Longrightarrow> list_all (digits_only int_names) rs \<Longrightarrow> digit_caps c \<Longrightarrow>
     \<exists>s' c'. digit_caps c' \<and> k s' c' = Some res"
proof (induction subject r s c k and subject rs s c k arbitrary: res and res rule: match_re_match_seq.induct)
  case (1 subject a s c k)
  then show ?case by (auto split: list.splits if_splits)
next
  case (2 subject a s c k)
  then show ?case by (auto split: list.splits if_splits dest!: star_sound)
next
  case (3 subject a s c k)
  then show ?case by (auto dest!: star_sound)
next
  case (4 subject name body s c k)
  from "4.prems" have run: "match_seq subject body s c
      (\<lambda>s' c'. k s' ((name, take (length s - length s') s) # c')) = Some res"
    and body_ok: "list_all (digits_only int_names) body"
    and body_digits: "name \<in> set int_names \<longrightarrow> body = [Plus Digit]"
    by simp_all
  show ?case
  proof (cases "name \<in> set int_names")
    case False
    from "4.IH" [OF run body_ok "4.prems"(3)]
    have "\<exists>s' c'. digit_caps c' \<and> k s' ((name, take (length s - length s') s) # c') = Some res" .
    with False show ?thesis by (blast intro: digit_caps_other)
  next
    case True
    with body_digits have body: "body = [Plus Digit]" by simp
    with run obtain x xs where s: "s = x # xs" and x: "is_decimal x"
      and st: "star Digit xs (\<lambda>s'. k s' ((name, take (length s - length s') s) # c)) = Some res"
      by (auto split: list.splits if_splits)
    from star_sound [OF st] obtain n where n: "n \<le> length xs" "list_all (accepts Digit) (take n xs)"
      "k (drop n xs) ((name, take (length s - length (drop n xs)) s) # c) = Some res" by blast
    have "take (length s - length (drop n xs)) s = x # take n xs"
      using n(1) s by (simp add: Suc_diff_le)
    moreover have "list_all is_decimal (x # take n xs)" using x n(2) by (simp add: list_all_iff)
    ultimately show ?thesis using n(3) "4.prems"(3) by (metis digit_caps_digits list.distinct(1))
  qed
next
  case (5 subject body s c k)
  then show ?case by (auto split: option.splits)
next
  case (6 subject s c k)
  then show ?case by (auto split: if_splits)
next
  case (7 subject s c k)
  then show ?case by (auto split: if_splits)
next
  case (8 subject s c k)
  then show ?case by auto
next
  case (9 subject r rs s c k)
  from "9.prems" have run: "match_re subject r s c (\<lambda>s' c'. match_seq subject rs s' c' k) = Some res"
    and r: "digits_only int_names r" and rs: "list_all (digits_only int_names) rs"
    by simp_all
  from "9.IH"(2) [OF run r "9.prems"(3)] obtain s' c' where "digit_caps c'"
    "match_seq subject rs s' c' k = Some res" by auto
  with "9.IH"(1) rs show ?case by blast
qed

lemma re_match_digit_caps:
  "re_match p line = Some c \<Longrightarrow> list_all (digits_only int_names) p \<Longrightarrow> digit_caps c"
  using match_digit_caps(2) [of line p line "[]" "\<lambda>s c. Some c" c]
  by (auto simp: re_match_def digit_caps_def)


text \<open>
  The groups outside every optional part are captured by every match, so \<open>as_str\<close> never
  meets \<open>None\<close> for them.
\<close>

lemma match_binds:
  "match_re subject r s c k = Some res \<Longrightarrow>
     \<exists>s' c'. k s' c' = Some res \<and> fst ` set c \<union> set (binds r) \<subseteq> fst ` set c'"
  "match_seq subject rs s c k = Some res \<Longrightarrow>
     \<exists>s' c'. k s' c' = Some res \<and> fst ` set c \<union> set (concat (map binds rs)) \<subseteq> fst ` set c'"
proof (induction subject r s c k and subject rs s c k arbitrary: res and res
    rule: match_re_match_seq.induct)
  case (1 subject a s c k)
  then show ?case by (auto split: list.splits if_splits)
next
  case (2 subject a s c k)
  then show ?case by (auto split: list.splits if_splits dest!: star_sound)
next
  case (3 subject a s c k)
  then show ?case by (auto dest!: star_sound)
next
  case (4 subject name body s c k)
  from "4.prems" have "match_seq subject body s c
      (\<lambda>s' c'. k s' ((name, take (length s - length s') s) # c')) = Some res" by simp
  from "4.IH" [OF this] obtain s' c' where
    "k s' ((name, take (length s - length s') s) # c') = Some res"
    "fst ` set c \<union> set (concat (map binds body)) \<subseteq> fst ` set c'" by blast
  then show ?case
    by (intro exI [of _ s'] exI [of _ "(name, take (length s - length s') s) # c'"]) auto
next
  case (5 subject body s c k)
  show ?case
  proof (cases "match_seq subject body s c k")
    case None
    with "5.prems" show ?thesis by auto
  next
    case (Some r)
    with "5.prems" have "match_seq subject body s c k = Some res" by simp
    from "5.IH" [OF this] show ?thesis by auto
  qed
next
  case (6 subject s c k)
  then show ?case by (auto split: if_splits)
next
  case (7 subject s c k)
  then show ?case by (auto split: if_splits)
next
  case (8 subject s c k)
  then show ?case by auto
next
  case (9 subject r rs s c k)
  from "9.prems" have "match_re subject r s c (\<lambda>s' c'. match_seq subject rs s' c' k) = Some res"
    by simp
  from "9.IH"(2) [OF this] obtain s' c' where run: "match_seq subject rs s' c' k = Some res"
    and sub: "fst ` set c \<union> set (binds r) \<subseteq> fst ` set c'" by blast
  from "9.IH"(1) [OF run] obtain s'' c'' where "k s'' c'' = Some res"
    "fst ` set c' \<union> set (concat (map binds rs)) \<subseteq> fst ` set c''" by blast
  with sub have "k s'' c'' = Some res
      \<and> fst ` set c \<union> set (concat (map binds (r # rs))) \<subseteq> fst ` set c''"
    by (simp only: map_append list.map concat.simps set_append) blast
  then show ?case by blast
qed

lemma match_captures:
  assumes "re_match p line = Some c" and "n \<in> set (concat (map binds p))"
  shows "\<exists>s. item (groupdict p c) n = Some s"
proof -
  from match_binds(2) [of line p line "[]" "\<lambda>s c. Some c" c] assms(1)
  have "set (concat (map binds p)) \<subseteq> fst ` set c" by (auto simp: re_match_def)
  with assms(2) obtain s where s: "map_of c n = Some s"
    by (metis subsetD weak_map_of_SomeI imageE prod.collapse map_of_eq_None_iff not_None_eq)
  have "set (binds r) \<subseteq> set (names r)" for r
    by (induction r rule: names.induct) auto
  with assms(2) have "n \<in> set (concat (map names p))" by auto
  then have "map_of (groupdict p c) n = Some (map_of c n)"
    unfolding groupdict_def by (induction "concat (map names p)") (auto simp: map_of_map_restrict)
  with s show ?thesis by (simp add: item_def)
qed

lemma mandatory_groups:
  "concat (map binds p1) = [''interface'', ''flags'', ''mtu'']"
  "concat (map binds p2) = [''ip'', ''netmask'', ''broadcast'']"
  "concat (map binds p3) = [''ip'', ''prefixlen'', ''scopeid'']"
  "concat (map binds p4) = [''type'', ''destription'']"
  by (simp_all add: p1_def p2_def p3_def p4_def lit_def spaces_def)

section \<open>The shape of the heap is kept\<close>

lemma set_dict_set: "set (dict_set d k v) \<subseteq> insert (k, v) (set d)"
  by (induction d) (auto split: if_splits)

lemma set_dict_update: "set (dict_update d kvs) \<subseteq> set d \<union> set kvs"
  unfolding dict_update_def
proof (induction kvs arbitrary: d)
  case Nil
  then show ?case by simp
next
  case (Cons kv kvs)
  obtain k v where kv: "kv = (k, v)" by (cases kv)
  have "set (foldl (\<lambda>d' (k, v). dict_set d' k v) (dict_set d k v) kvs)
      \<subseteq> set (dict_set d k v) \<union> set kvs"
    by (rule Cons.IH)
  with set_dict_set [of d k v] show ?case by (auto simp: kv)
qed

lemma points_to_extend: "points_to rs a r v \<Longrightarrow> points_to (rs @ rs') a r v"
  by (cases v) (auto simp: nth_append)

lemma field_ok_extend: "field_ok rs a r kv \<Longrightarrow> field_ok (rs @ rs') a r kv"
  by (auto simp: field_ok_def points_to_extend split: option.splits)

lemma has_role_extend: "has_role rs r v \<Longrightarrow> has_role (rs @ rs') r v"
  by (auto simp: has_role_def nth_append)

lemma typed_update:
  assumes "typed rs h" and "a < length h" and "\<forall>kv \<in> set kvs. field_ok rs a (rs ! a) kv"
  shows "typed rs (update h a kvs)"
  unfolding typed_def update_def
proof (intro conjI allI impI ballI)
  show "length rs = length (h[a := dict_update (h ! a) kvs])"
    using assms(1) by (simp add: typed_def)
next
  fix b kv
  assume b: "b < length (h[a := dict_update (h ! a) kvs])"
    and kv: "kv \<in> set (h[a := dict_update (h ! a) kvs] ! b)"
  show "field_ok rs b (rs ! b) kv"
  proof (cases "b = a")
    case True
    with kv assms(2) have "kv \<in> set (dict_update (h ! a) kvs)" by simp
    with set_dict_update have "kv \<in> set (h ! a) \<or> kv \<in> set kvs" by blast
    with assms True show ?thesis by (auto simp: typed_def)
  next
    case False
    with kv b assms(1) show ?thesis by (auto simp: typed_def)
  qed
qed

lemma typed_setdefault:
  assumes "typed rs h" and "a < length h" and "child (rs ! a) k = Some r'"
    and "setdefault h a k = (v, h')"
  shows "\<exists>rs'. typed (rs @ rs') h' \<and> has_role (rs @ rs') r' v"
proof (cases "map_of (h ! a) k")
  case (Some w)
  with assms(4) have eq: "v = w" "h' = h" by (simp_all add: setdefault_def)
  from Some have "(k, w) \<in> set (h ! a)" by (rule map_of_SomeD)
  with assms(1,2) have "field_ok rs a (rs ! a) (k, w)" by (auto simp: typed_def)
  with assms(3) have "points_to rs a r' w" by (simp add: field_ok_def)
  then have "has_role rs r' w" by (cases w) (auto simp: has_role_def)
  with assms(1) eq show ?thesis by (intro exI [of _ "[]"]) simp
next
  case None
  with assms(4) have v: "v = PRef (length h)"
    and h': "h' = (h @ [[]])[a := h ! a @ [(k, PRef (length h))]]"
    by (auto simp: setdefault_def)
  from assms(1) have len: "length rs = length h" by (simp add: typed_def)
  have "typed (rs @ [r']) h'"
    unfolding typed_def
  proof (intro conjI allI impI ballI)
    show "length (rs @ [r']) = length h'" using len h' by simp
  next
    fix b kv
    assume b: "b < length h'" and kv: "kv \<in> set (h' ! b)"
    show "field_ok (rs @ [r']) b ((rs @ [r']) ! b) kv"
    proof (cases "b = a")
      case True
      with kv h' assms(2) have "kv \<in> set (h ! a) \<or> kv = (k, PRef (length h))" by auto
      then show ?thesis
      proof
        assume "kv \<in> set (h ! a)"
        with assms(1,2) have "field_ok rs a (rs ! a) kv" by (auto simp: typed_def)
        with True assms(2) len show ?thesis by (simp add: field_ok_extend nth_append)
      next
        assume "kv = (k, PRef (length h))"
        with True assms(2,3) len show ?thesis by (simp add: field_ok_def nth_append)
      qed
    next
      case False
      show ?thesis
      proof (cases "b < length h")
        case True
        with False kv h' have "kv \<in> set (h ! b)" by (simp add: nth_append)
        with assms(1) True have "field_ok rs b (rs ! b) kv" by (auto simp: typed_def)
        with True len show ?thesis by (simp add: field_ok_extend nth_append)
      next
        case False
        with b h' have "b = length h" by simp
        with kv h' \<open>b \<noteq> a\<close> show ?thesis by (simp add: nth_append)
      qed
    qed
  qed
  moreover have "has_role (rs @ [r']) r' v" using v len by (simp add: has_role_def nth_append)
  ultimately show ?thesis by blast
qed


lemma setdefault_step:
  assumes "typed rs h" and "has_role rs r (PRef a)" and "child r k = Some r'"
    and "setdefault h a k = (v, h')"
  obtains rs' b where "typed (rs @ rs') h'" and "v = PRef b" and "has_role (rs @ rs') r' (PRef b)"
proof -
  from assms(1,2) have "a < length h" "rs ! a = r" by (auto simp: has_role_def typed_def)
  with typed_setdefault [OF assms(1) this(1) _ assms(4), of r'] assms(3)
  obtain rs' where "typed (rs @ rs') h'" "has_role (rs @ rs') r' v" by auto
  then show ?thesis using that by (auto simp: has_role_def)
qed

lemma int_keys_subset: "set (int_keys r) \<subseteq> set int_names"
  by (cases r) (auto simp: int_names_def)

lemma update_step:
  assumes "typed rs h" and "has_role rs r (PRef a)"
    and "\<forall>kv \<in> set kvs. child r (fst kv) = None \<and> scalar (snd kv)
           \<and> (fst kv \<in> set (int_keys r) \<longrightarrow> is_pint (snd kv))"
  shows "typed rs (update h a kvs)"
proof -
  from assms(1,2) have a: "a < length h" "rs ! a = r" by (auto simp: has_role_def typed_def)
  from assms(3) have "\<forall>kv \<in> set kvs. field_ok rs a (rs ! a) kv"
    by (auto simp: field_ok_def a)
  with assms(1) a(1) show ?thesis by (rule typed_update)
qed

lemma inv_typed: "inv rs st \<Longrightarrow> typed rs (heap st)"
  by (simp add: inv_def)

lemma inv_intf: "inv rs st \<Longrightarrow> intf_dict st = Some v \<Longrightarrow> has_role rs RIntf v"
  by (simp add: inv_def)

lemma inv_counter: "inv rs st \<Longrightarrow> counter_dict st = Some v \<Longrightarrow> has_role rs RCounters v"
  by (simp add: inv_def)

lemma inv_heap_same: "inv rs st \<Longrightarrow> typed rs h' \<Longrightarrow> inv rs (st\<lparr>heap := h'\<rparr>)"
  by (auto simp: inv_def)

lemma inv_heap:
  "inv rs st \<Longrightarrow> typed (rs @ rs') h' \<Longrightarrow> inv (rs @ rs') (st\<lparr>heap := h'\<rparr>)"
  by (auto simp: inv_def has_role_extend)


subsection \<open>The branches of the loop\<close>

lemma traverse_set:
  "traverse f xs = Inr ys \<Longrightarrow> y \<in> set ys \<Longrightarrow> \<exists>x \<in> set xs. f x = Inr y"
  by (induction xs arbitrary: ys) (auto simp: bind_def split: sum.splits)

lemma isdigit_decimal: "v \<noteq> [] \<Longrightarrow> list_all is_decimal v \<Longrightarrow> isdigit v"
  by (auto simp: isdigit_def isdigit_char_def list_all_iff)

lemma groupdict_set:
  "x \<in> set (groupdict p c) \<Longrightarrow> fst x \<in> set (concat (map names p)) \<and> snd x = map_of c (fst x)"
  by (auto simp: groupdict_def)

lemma int_or_str_groupdict:
  assumes "digit_caps c" and "traverse int_or_str (groupdict p c) = Inr kvs" and "kv \<in> set kvs"
  shows "fst kv \<in> set (concat (map names p)) \<and> scalar (snd kv)
       \<and> (fst kv \<in> set int_names \<longrightarrow> is_pint (snd kv))"
proof -
  from traverse_set [OF assms(2,3)] obtain x where x: "x \<in> set (groupdict p c)"
    "int_or_str x = Inr kv" by blast
  from groupdict_set [OF x(1)] have g: "fst x \<in> set (concat (map names p))"
    "snd x = map_of c (fst x)" by simp_all
  from x(2) obtain s where s: "snd x = Some s" by (auto simp: int_or_str_def split: option.splits)
  have "fst kv = fst x" "scalar (snd kv)" "isdigit s \<longrightarrow> is_pint (snd kv)"
    using x(2) s by (auto simp: int_or_str_def bind_def split: if_splits sum.splits)
  moreover have "fst x \<in> set int_names \<longrightarrow> isdigit s"
  proof
    assume "fst x \<in> set int_names"
    moreover from g(2) s have "map_of c (fst x) = Some s" by simp
    ultimately have "s \<noteq> [] \<and> list_all is_decimal s"
      using assms(1) by (simp add: digit_caps_def)
    then show "isdigit s" by (simp add: isdigit_decimal)
  qed
  ultimately show ?thesis using g(1) by simp
qed

lemma to_int_groupdict:
  assumes "traverse to_int (groupdict p c) = Inr kvs" and "kv \<in> set kvs"
  shows "scalar (snd kv) \<and> is_pint (snd kv)"
proof -
  from traverse_set [OF assms] obtain x where "to_int x = Inr kv" by blast
  then show ?thesis by (auto simp: to_int_def bind_def split: option.splits sum.splits)
qed

lemma keep_groupdict:
  assumes "traverse keep (groupdict p c) = Inr kvs" and "kv \<in> set kvs"
  shows "scalar (snd kv) \<and> \<not> is_pint (snd kv)"
proof -
  from traverse_set [OF assms] obtain x where "keep x = Inr kv" by blast
  then show ?thesis by (auto simp: keep_def as_str_def bind_def split: option.splits sum.splits)
qed

lemma names_p1: "concat (map names p1) = [''interface'', ''flags'', ''mtu'']"
  by (simp add: p1_def lit_def spaces_def)

lemma load_Inr: "load var = Inr v \<longleftrightarrow> var = Some v"
  by (auto simp: load_def split: option.splits)

lemma as_dict_Inr: "as_dict v = Inr a \<longleftrightarrow> v = PRef a"
  by (auto simp: as_dict_def split: pyval.splits)

lemma bind_Inr: "bind x f = Inr y \<longleftrightarrow> (\<exists>z. x = Inr z \<and> f z = Inr y)"
  by (auto simp: bind_def split: sum.splits)

lemma case_prod_Inr:
  "((case p of (x, y) \<Rightarrow> f x y) = Inr z) = (\<exists>x y. p = (x, y) \<and> f x y = Inr z)"
  by (cases p) simp

lemma on_p1_inv:
  assumes "inv rs st" and "digit_caps c" and "on_p1 st (groupdict p1 c) = Inr st'"
  shows "\<exists>rs'. inv rs' st'"
proof -
  from assms(3) obtain interface intf h a kvs where
    sd: "setdefault (heap st) (result_dict st) interface = (intf, h)"
    and a: "intf = PRef a"
    and kvs: "traverse int_or_str (groupdict p1 c) = Inr kvs"
    and st': "st' = st\<lparr>heap := update h a kvs, intf_dict := Some intf\<rparr>"
    by (auto simp: on_p1_def bind_Inr as_dict_Inr case_prod_Inr)
  from assms(1) have r: "has_role rs RResult (PRef (result_dict st))"
    by (simp add: inv_def)
  from setdefault_step [OF inv_typed [OF assms(1)] r _ sd, of RIntf] a obtain rs' where
    t': "typed (rs @ rs') h" and ra: "has_role (rs @ rs') RIntf (PRef a)" by auto
  have "child RIntf (fst kv) = None \<and> scalar (snd kv)
           \<and> (fst kv \<in> set (int_keys RIntf) \<longrightarrow> is_pint (snd kv))" if "kv \<in> set kvs" for kv
    using int_or_str_groupdict [OF assms(2) kvs that] int_keys_subset [of RIntf]
    by (auto simp: names_p1)
  then have "typed (rs @ rs') (update h a kvs)"
    by (intro update_step [OF t' ra]) blast
  from inv_heap [OF assms(1) this] ra a st' have "inv (rs @ rs') st'" by (simp add: inv_def)
  then show ?thesis ..
qed

lemma on_p2_inv:
  assumes "inv rs st" and "on_p2 st (groupdict p2 c) = Inr st'"
  shows "\<exists>rs'. inv rs' st'"
proof -
  from assms(2) obtain ip a h b h' d kvs where
    intf: "intf_dict st = Some (PRef a)"
    and sd1: "setdefault (heap st) a ''ipv4'' = (PRef b, h)"
    and sd2: "setdefault h b ip = (PRef d, h')"
    and kvs: "traverse keep (groupdict p2 c) = Inr kvs"
    and st': "st' = st\<lparr>heap := update h' d kvs\<rparr>"
    by (auto simp: on_p2_def bind_Inr load_Inr as_dict_Inr case_prod_Inr)
  from setdefault_step [OF inv_typed [OF assms(1)] inv_intf [OF assms(1) intf] _ sd1, of RFam4]
  obtain rs1 where t1: "typed (rs @ rs1) h" and rb: "has_role (rs @ rs1) RFam4 (PRef b)" by auto
  from setdefault_step [OF t1 rb _ sd2, of RAddr4]
  obtain rs2 where t2: "typed ((rs @ rs1) @ rs2) h'"
    and rd: "has_role ((rs @ rs1) @ rs2) RAddr4 (PRef d)" by auto
  have "child RAddr4 (fst kv) = None \<and> scalar (snd kv)
           \<and> (fst kv \<in> set (int_keys RAddr4) \<longrightarrow> is_pint (snd kv))" if "kv \<in> set kvs" for kv
    using keep_groupdict [OF kvs that] by simp
  then have "typed (rs @ rs1 @ rs2) (update h' d kvs)"
    using update_step [OF t2 rd, of kvs] by simp
  from inv_heap [OF assms(1) this] st' show ?thesis by blast
qed

lemma names_p3: "concat (map names p3) = [''ip'', ''prefixlen'', ''scopeid'']"
  by (simp add: p3_def lit_def spaces_def)

lemma on_p3_inv:
  assumes "inv rs st" and "digit_caps c" and "on_p3 st (groupdict p3 c) = Inr st'"
  shows "\<exists>rs'. inv rs' st'"
proof -
  from assms(3) obtain ip a h b h' d kvs where
    intf: "intf_dict st = Some (PRef a)"
    and sd1: "setdefault (heap st) a ''ipv6'' = (PRef b, h)"
    and sd2: "setdefault h b ip = (PRef d, h')"
    and kvs: "traverse int_or_str (groupdict p3 c) = Inr kvs"
    and st': "st' = st\<lparr>heap := update h' d kvs\<rparr>"
    by (auto simp: on_p3_def bind_Inr load_Inr as_dict_Inr case_prod_Inr)
  from setdefault_step [OF inv_typed [OF assms(1)] inv_intf [OF assms(1) intf] _ sd1, of RFam6]
  obtain rs1 where t1: "typed (rs @ rs1) h" and rb: "has_role (rs @ rs1) RFam6 (PRef b)" by auto
  from setdefault_step [OF t1 rb _ sd2, of RAddr6]
  obtain rs2 where t2: "typed ((rs @ rs1) @ rs2) h'"
    and rd: "has_role ((rs @ rs1) @ rs2) RAddr6 (PRef d)" by auto
  have "child RAddr6 (fst kv) = None \<and> scalar (snd kv)
           \<and> (fst kv \<in> set (int_keys RAddr6) \<longrightarrow> is_pint (snd kv))" if "kv \<in> set kvs" for kv
    using int_or_str_groupdict [OF assms(2) kvs that] int_keys_subset [of RAddr6] by auto
  then have "typed (rs @ rs1 @ rs2) (update h' d kvs)"
    using update_step [OF t2 rd, of kvs] by simp
  from inv_heap [OF assms(1) this] st' show ?thesis by blast
qed

lemma update_intf:
  assumes "inv rs st" and "intf_dict st = Some (PRef a)"
    and "\<forall>kv \<in> set kvs. child RIntf (fst kv) = None \<and> scalar (snd kv)
           \<and> (fst kv \<in> set intf_int_keys \<longrightarrow> is_pint (snd kv))"
  shows "inv rs (st\<lparr>heap := update (heap st) a kvs\<rparr>)"
  using update_step [OF inv_typed [OF assms(1)] inv_intf [OF assms(1,2)], of kvs] assms(1,3)
  by (simp add: inv_heap_same)

lemma on_p4_inv:
  assumes "inv rs st" and "on_p4 st grp = Inr st'"
  shows "\<exists>rs'. inv rs' st'"
proof -
  from assms(2) obtain a type destription where
    intf: "intf_dict st = Some (PRef a)"
    and rest: "(let h = update (heap st) a [(''type'', PStr type), (''destription'', PStr destription)];
         mac = item grp ''mac'';
         txqueuelen = item grp ''txqueuelen'';
         h' = (if truthy mac then update h a [(''mac'', PStr (the mac))] else h)
     in if truthy txqueuelen
        then bind (py_int (the txqueuelen)) (\<lambda>i.
             Inr (st\<lparr>heap := update h' a [(''txqueuelen'', PInt i)]\<rparr>))
        else Inr (st\<lparr>heap := h'\<rparr>)) = Inr st'"
    by (auto simp: on_p4_def bind_Inr load_Inr as_dict_Inr)
  define st1 where "st1 = st\<lparr>heap := update (heap st) a
      [(''type'', PStr type), (''destription'', PStr destription)]\<rparr>"
  define st2 where "st2 = (if truthy (item grp ''mac'')
      then st1\<lparr>heap := update (heap st1) a [(''mac'', PStr (the (item grp ''mac'')))]\<rparr> else st1)"
  have i1: "inv rs st1" unfolding st1_def
    by (rule update_intf [OF assms(1) intf]) (simp add: intf_int_keys_def)
  have intf1: "intf_dict st1 = Some (PRef a)" by (simp add: st1_def intf)
  have i2: "inv rs st2" unfolding st2_def
    using update_intf [OF i1 intf1, of "[(''mac'', PStr (the (item grp ''mac'')))]"] i1
    by (simp add: intf_int_keys_def)
  have intf2: "intf_dict st2 = Some (PRef a)" by (simp add: st2_def intf1)
  from rest have "st' = st2 \<or> (\<exists>i. st' = st2\<lparr>heap := update (heap st2) a [(''txqueuelen'', PInt i)]\<rparr>)"
    by (auto simp: Let_def st1_def st2_def bind_Inr split: if_splits)
  moreover have "inv rs (st2\<lparr>heap := update (heap st2) a [(''txqueuelen'', PInt i)]\<rparr>)" for i
    by (rule update_intf [OF i2 intf2]) (simp add: intf_int_keys_def)
  ultimately show ?thesis using i2 by blast
qed

lemma on_p5_inv:
  assumes "inv rs st" and "digit_caps c" and "on_p5 st (groupdict p5 c) = Inr st'"
  shows "\<exists>rs'. inv rs' st'"
proof -
  from assms(3) obtain a h d kvs where
    intf: "intf_dict st = Some (PRef a)"
    and sd: "setdefault (heap st) a ''counters'' = (PRef d, h)"
    and kvs: "traverse int_or_str (groupdict p5 c) = Inr kvs"
    and st': "st' = st\<lparr>heap := update h d kvs, counter_dict := Some (PRef d)\<rparr>"
    by (auto simp: on_p5_def bind_Inr load_Inr as_dict_Inr case_prod_Inr)
  from setdefault_step [OF inv_typed [OF assms(1)] inv_intf [OF assms(1) intf] _ sd, of RCounters]
  obtain rs1 where t1: "typed (rs @ rs1) h" and rd: "has_role (rs @ rs1) RCounters (PRef d)"
    by auto
  have "child RCounters (fst kv) = None \<and> scalar (snd kv)
           \<and> (fst kv \<in> set (int_keys RCounters) \<longrightarrow> is_pint (snd kv))" if "kv \<in> set kvs" for kv
    using int_or_str_groupdict [OF assms(2) kvs that] int_keys_subset [of RCounters] by auto
  then have "typed (rs @ rs1) (update h d kvs)"
    using update_step [OF t1 rd, of kvs] by simp
  from inv_heap [OF assms(1) this] rd st' have "inv (rs @ rs1) st'" by (simp add: inv_def)
  then show ?thesis ..
qed

lemma update_counters:
  assumes "inv rs st" and "counter_dict st = Some (PRef d)"
    and "\<forall>kv \<in> set kvs. scalar (snd kv) \<and> (fst kv \<in> set int_names \<longrightarrow> is_pint (snd kv))"
  shows "inv rs (st\<lparr>heap := update (heap st) d kvs\<rparr>)"
proof -
  from assms(3) int_keys_subset [of RCounters]
  have "\<forall>kv \<in> set kvs. child RCounters (fst kv) = None \<and> scalar (snd kv)
           \<and> (fst kv \<in> set (int_keys RCounters) \<longrightarrow> is_pint (snd kv))" by auto
  from update_step [OF inv_typed [OF assms(1)] inv_counter [OF assms(1,2)] this] assms(1)
  show ?thesis by (simp add: inv_heap_same)
qed

lemma on_p6_inv:
  assumes "inv rs st" and "on_p6 st (groupdict p6 c) = Inr st'"
  shows "\<exists>rs'. inv rs' st'"
proof -
  from assms(2) obtain d kvs where
    cd: "counter_dict st = Some (PRef d)"
    and kvs: "traverse to_int (groupdict p6 c) = Inr kvs"
    and st': "st' = st\<lparr>heap := update (heap st) d kvs\<rparr>"
    by (auto simp: on_p6_def bind_Inr load_Inr as_dict_Inr)
  have "inv rs st'" unfolding st'
    by (rule update_counters [OF assms(1) cd]) (use to_int_groupdict [OF kvs] in blast)
  then show ?thesis ..
qed

lemma on_p7_inv:
  assumes "inv rs st" and "digit_caps c" and "on_p7 st (groupdict p7 c) = Inr st'"
  shows "\<exists>rs'. inv rs' st'"
proof -
  from assms(3) obtain d kvs where
    cd: "counter_dict st = Some (PRef d)"
    and kvs: "traverse int_or_str (groupdict p7 c) = Inr kvs"
    and st': "st' = st\<lparr>heap := update (heap st) d kvs\<rparr>"
    by (auto simp: on_p7_def bind_Inr load_Inr as_dict_Inr)
  have "inv rs st'" unfolding st'
    by (rule update_counters [OF assms(1) cd])
      (use int_or_str_groupdict [OF assms(2) kvs] in blast)
  then show ?thesis ..
qed

lemma on_p8_inv:
  assumes "inv rs st" and "on_p8 st (groupdict p8 c) = Inr st'"
  shows "\<exists>rs'. inv rs' st'"
proof -
  from assms(2) obtain d kvs where
    cd: "counter_dict st = Some (PRef d)"
    and kvs: "traverse to_int (groupdict p8 c) = Inr kvs"
    and st': "st' = st\<lparr>heap := update (heap st) d kvs\<rparr>"
    by (auto simp: on_p8_def bind_Inr load_Inr as_dict_Inr)
  have "inv rs st'" unfolding st'
    by (rule update_counters [OF assms(1) cd]) (use to_int_groupdict [OF kvs] in blast)
  then show ?thesis ..
qed

lemma on_p9_inv:
  assumes "inv rs st" and "on_p9 st grp = Inr st'"
  shows "\<exists>rs'. inv rs' st'"
proof -
  from assms(2) obtain st1 where
    first: "st1 = st \<or> (\<exists>i a. intf_dict st = Some (PRef a)
        \<and> st1 = st\<lparr>heap := update (heap st) a [(''device_interrupt'', PInt i)]\<rparr>)"
    and second: "st' = st1 \<or> (\<exists>a. intf_dict st1 = Some (PRef a)
        \<and> st' = st1\<lparr>heap := update (heap st1) a
             [(''device_memory'', PStr (the (item grp ''device_memory'')))]\<rparr>)"
    by (auto simp: on_p9_def Let_def bind_Inr load_Inr as_dict_Inr split: if_splits)
  have i1: "inv rs st1"
    using first assms(1)
      update_intf [OF assms(1), of _ "[(''device_interrupt'', PInt i)]" for i]
    by (auto simp: intf_int_keys_def)
  have "inv rs st'"
    using second i1
      update_intf [OF i1, of _ "[(''device_memory'', PStr (the (item grp ''device_memory'')))]"]
    by (auto simp: intf_int_keys_def)
  then show ?thesis ..
qed

lemma patterns_digits_only:
  "list_all (digits_only int_names) p1" "list_all (digits_only int_names) p3"
  "list_all (digits_only int_names) p5" "list_all (digits_only int_names) p7"
  by (simp_all add: p1_def p3_def p5_def p7_def lit_def spaces_def int_names_def
      intf_int_keys_def ipv6_int_keys_def counters_int_keys_def)

lemma process_line_inv:
  assumes "inv rs st" and "process_line st line = Inr st'"
  shows "\<exists>rs'. inv rs' st'"
  using assms(2) assms(1)
  unfolding process_line_def Let_def
  by (auto split: if_splits option.splits
      dest: re_match_digit_caps [OF _ patterns_digits_only(1)]
        re_match_digit_caps [OF _ patterns_digits_only(2)]
        re_match_digit_caps [OF _ patterns_digits_only(3)]
        re_match_digit_caps [OF _ patterns_digits_only(4)]
      intro: on_p1_inv on_p2_inv on_p3_inv on_p4_inv on_p5_inv on_p6_inv on_p7_inv on_p8_inv
        on_p9_inv)

lemma process_lines_inv:
  "inv rs st \<Longrightarrow> process_lines st lines = Inr st' \<Longrightarrow> \<exists>rs'. inv rs' st'"
proof (induction lines arbitrary: rs st)
  case Nil
  then show ?case by auto
next
  case (Cons line lines)
  from Cons.prems(2) obtain st1 where "process_line st line = Inr st1"
    "process_lines st1 lines = Inr st'" by (auto simp: bind_Inr)
  with process_line_inv [OF Cons.prems(1)] Cons.IH show ?case by blast
qed

lemma inv_init: "inv [RResult] init"
  by (simp add: inv_def init_def typed_def has_role_def)

subsection \<open>Reading the result\<close>

lemma reify_scalar: "scalar v \<Longrightarrow> \<exists>x. reify n h v = Some x \<and> (is_pint v \<longrightarrow> is_int x)"
  by (cases v) auto

lemma reify_items_fields:
  assumes "\<And>kv. kv \<in> set d \<Longrightarrow> \<exists>x. reify n h (snd kv) = Some x \<and> P (fst kv) x"
  shows "\<exists>m. reify_items n h d = Some m \<and> list_all (\<lambda>(k, x). P k x) m"
  using assms
proof (induction d)
  case Nil
  then show ?case by simp
next
  case (Cons kv d)
  from Cons.prems [of kv] obtain x where x: "reify n h (snd kv) = Some x" "P (fst kv) x" by auto
  from Cons.IH Cons.prems obtain m where "reify_items n h d = Some m"
    "list_all (\<lambda>(k, x). P k x) m" by auto
  with x show ?case by simp
qed

lemma value_ok_entries:
  assumes "list_all (\<lambda>(k, x). case child r k of Some r' \<Rightarrow> value_ok r' x
                                | None \<Rightarrow> k \<in> set (int_keys r) \<longrightarrow> is_int x) m"
  shows "value_ok r (Mapping m)"
  using assms
  by (cases r) (auto simp: list_all_iff intf_int_keys_def split: if_splits)

lemma reify_typed:
  "typed rs h \<Longrightarrow> a < length h \<Longrightarrow> length h - a \<le> n \<Longrightarrow>
     \<exists>v. reify n h (PRef a) = Some v \<and> value_ok (rs ! a) v"
proof (induction n arbitrary: a)
  case 0
  then show ?case by simp
next
  case (Suc n)
  have "\<exists>x. reify n h (snd kv) = Some x
          \<and> (case child (rs ! a) (fst kv) of Some r' \<Rightarrow> value_ok r' x
             | None \<Rightarrow> fst kv \<in> set (int_keys (rs ! a)) \<longrightarrow> is_int x)"
    if kv: "kv \<in> set (h ! a)" for kv
  proof -
    from Suc.prems(1,2) kv have ok: "field_ok rs a (rs ! a) kv" by (auto simp: typed_def)
    show ?thesis
    proof (cases "child (rs ! a) (fst kv)")
      case None
      with ok have "scalar (snd kv)" "fst kv \<in> set (int_keys (rs ! a)) \<longrightarrow> is_pint (snd kv)"
        by (simp_all add: field_ok_def)
      with reify_scalar [of "snd kv" n h] None show ?thesis by auto
    next
      case (Some r')
      with ok have "points_to rs a r' (snd kv)" by (simp add: field_ok_def)
      then obtain b where b: "snd kv = PRef b" "a < b" "b < length rs" "rs ! b = r'"
        by (cases "snd kv") auto
      from Suc.prems(1) b(3) have "b < length h" by (simp add: typed_def)
      moreover from b(2) Suc.prems(3) have "length h - b \<le> n" by simp
      ultimately obtain x where "reify n h (PRef b) = Some x" "value_ok (rs ! b) x"
        using Suc.IH [OF Suc.prems(1)] by blast
      with b Some show ?thesis by simp
    qed
  qed
  from reify_items_fields [of "h ! a" n h
      "\<lambda>k x. case child (rs ! a) k of Some r' \<Rightarrow> value_ok r' x
             | None \<Rightarrow> k \<in> set (int_keys (rs ! a)) \<longrightarrow> is_int x", OF this]
  obtain m where m: "reify_items n h (h ! a) = Some m"
    "list_all (\<lambda>(k, x). case child (rs ! a) k of Some r' \<Rightarrow> value_ok r' x
             | None \<Rightarrow> k \<in> set (int_keys (rs ! a)) \<longrightarrow> is_int x) m" by blast
  from value_ok_entries [OF m(2)] m(1) Suc.prems(2) show ?case by simp
qed

lemma snapshot_inv:
  assumes "inv rs st"
  shows "\<exists>v. snapshot (heap st) (result_dict st) = Some v \<and> int_fields_ok v"
proof -
  from assms have t: "typed rs (heap st)" and r: "result_dict st < length rs"
    "rs ! result_dict st = RResult" by (auto simp: inv_def has_role_def)
  from t r(1) have "result_dict st < length (heap st)" by (simp add: typed_def)
  from reify_typed [OF t this, of "length (heap st)"] r(2) show ?thesis
    by (simp add: snapshot_def int_fields_ok_def)
qed

lemma parse_int_fields:
  assumes "parse out = Inr (h, r)"
  shows "\<exists>v. snapshot h r = Some v \<and> int_fields_ok v"
proof -
  from assms obtain st where st: "process_lines init (splitlines out) = Inr st"
    "h = heap st" "r = result_dict st" by (auto simp: parse_def bind_Inr)
  from process_lines_inv [OF inv_init st(1)] obtain rs where "inv rs st" ..
  from snapshot_inv [OF this] st(2,3) show ?thesis by simp
qed


lemma parse_sample: "parse sample_output = Inr (sample_heap, 0)"
  by code_simp


text \<open>
  C1. Whenever \<open>cli\<close> returns, from a supplied output or from the device's, the result
  reads as a nested Value in which every field the schema declares as \<open>int\<close> holds an
  integer: \<open>mtu\<close>, \<open>txqueuelen\<close> and \<open>device_interrupt\<close> of every interface, \<open>prefixlen\<close> of
  every \<open>ipv6\<close> address, and the thirteen integer counters.
\<close>

theorem int_fields_are_integers:
  assumes "fst (cli execute device interface output) = Inr (h, r)"
  shows "\<exists>v. snapshot h r = Some v \<and> int_fields_ok v"
proof (cases "output")
  case None
  with assms obtain out where "parse out = Inr (h, r)"
    by (auto simp: cli_def Let_def bind_Inr split: prod.splits)
  then show ?thesis by (rule parse_int_fields)
next
  case (Some out)
  with assms have "parse out = Inr (h, r)" by (simp add: cli_def)
  then show ?thesis by (rule parse_int_fields)
qed

theorem int_fields_are_integers_witness:
  "fst (cli (\<lambda>d c. (Inl DeviceError, d)) () None (Some sample_output)) = Inr (sample_heap, 0)
   \<and> (\<exists>v. snapshot sample_heap 0 = Some v \<and> int_fields_ok v)"
proof -
  have run: "fst (cli (\<lambda>d c. (Inl DeviceError, d)) () None (Some sample_output))
      = Inr (sample_heap, 0)"
    by (simp add: cli_def parse_sample)
  from int_fields_are_integers [OF run] run show ?thesis by simp
qed


section \<open>Dictionaries\<close>

lemma map_of_dict_set: "map_of (dict_set d k v) k' = (if k' = k then Some v else map_of d k')"
  by (induction d) auto

section \<open>The schema engine on the schemas of the source\<close>

lemma concat_unexpected:
  "concat (map (\<lambda>(k, x). [UnexpectedKey p k]) m) = map (\<lambda>k. UnexpectedKey p k) (map fst m)"
  by (induction m) auto

text \<open>
  C3. Validating a non-empty Mapping against the empty descriptor \<open>{}\<close> of
  \<open>AnalyticsAsmbypassReportresultsSchema\<close> fails, with one \<open>UnexpectedKey\<close> error for each
  top-level key, in the order of the keys.
\<close>

theorem empty_schema_rejects_every_key:
  "validate (Mapping (kv # m)) AnalyticsAsmbypassReportresultsSchema =
     \<lparr>ok = False, errors = map (\<lambda>k. UnexpectedKey [] k) (map fst (kv # m))\<rparr>"
  by (simp add: validate_def AnalyticsAsmbypassReportresultsSchema_def concat_unexpected
      split: prod.splits)

text \<open>
  C7. Validating \<open>{"mtu": "bad"}\<close> against the mapping descriptor with the one literal key
  \<open>mtu\<close> of scalar type int fails with exactly one error: a \<open>TypeMismatch\<close> at path \<open>mtu\<close>,
  expected int, actual string.
\<close>

theorem validate_mtu_bad:
  "validate (Mapping [(''mtu'', VStr ''bad'')]) (MappingOf [lit_key ''mtu'' (ScalarType KInt)]) =
     \<lparr>ok = False, errors = [TypeMismatch [Key ''mtu''] KInt (Scalar KString)]\<rparr>"
  by (simp add: validate_def lit_key_def)

text \<open>
  C6. The descriptor of \<open>IfconfigSchema\<close> is well formed: every mapping level has at most
  one wildcard matcher, and the Literal and Optional names of one level are distinct.
\<close>

theorem IfconfigSchema_well_formed: "well_formed IfconfigSchema"
  by (simp add: IfconfigSchema_def lit_key_def opt_key_def any_key_def)

section \<open>The REST reader\<close>

text \<open>
  C5. When the device answers with a decoded document, \<open>rest\<close> returns it unchanged if it
  is truthy, and returns the empty mapping exactly when it is falsy.
\<close>

theorem rest_returns_response:
  assumes "get device cli_command = (Inr response_json, device')"
  shows "(json_truthy response_json \<longrightarrow> fst (rest get device) = Inr response_json)
       \<and> (fst (rest get device) = Inr (JDict []) \<longleftrightarrow> \<not> json_truthy response_json)"
  using assms by (auto simp: rest_def bind_def)

theorem rest_returns_response_witness:
  "(\<lambda>d c. (Inr (JDict [(''kind'', JStr ''report'')]), d)) () cli_command
      = (Inr (JDict [(''kind'', JStr ''report'')]), ())
   \<and> fst (rest (\<lambda>d c. (Inr (JDict [(''kind'', JStr ''report'')]), d)) ())
      = Inr (JDict [(''kind'', JStr ''report'')])
   \<and> fst (rest (\<lambda>d c. (Inr (JDict [(''kind'', JStr ''report'')]), d)) ()) \<noteq> Inr (JDict [])"
  using rest_returns_response [of "\<lambda>d c. (Inr (JDict [(''kind'', JStr ''report'')]), d)" "()"
      "JDict [(''kind'', JStr ''report'')]" "()"]
  by simp

section \<open>The parser of \<open>ifconfig\<close> on given output\<close>

text \<open>
  C8. With \<open>output\<close> supplied, \<open>cli\<close> executes no command on the device (the device's state
  is returned as it was) and its result is a function of the output alone: a second call
  with the same arguments, on the device as the first call left it, returns the same heap
  and address, hence the same keys in the same order with the same values.
\<close>

theorem cli_with_output_is_pure:
  "cli execute device interface (Some out) = (parse out, device)
   \<and> (case cli execute device interface (Some out) of (r1, device1) \<Rightarrow>
        case cli execute device1 interface (Some out) of (r2, device2) \<Rightarrow>
          r1 = r2 \<and> device2 = device)"
  by (simp add: cli_def)

subsection \<open>Detail lines before their header\<close>

lemma parse_inet_first:
  "parse ''inet 192.168.100.51  netmask 255.255.255.0  broadcast 192.168.100.255''
     = Inl UnboundLocalError"
  by code_simp

lemma parse_rx_errors_first:
  "parse ''eth0: flags=4163<UP,BROADCAST,RUNNING,MULTICAST>  mtu 1500\<newline>        RX errors 0  dropped 0  overruns 0  frame 0''
     = Inl UnboundLocalError"
  by code_simp

text \<open>
  C4. \<open>cli\<close> is not total on its text input. An output whose first matching line is an
  \<open>inet\<close> line reads \<open>intf_dict\<close> before any header has assigned it, and an output with an
  \<open>RX errors\<close> line and no \<open>RX packets\<close> line before it reads \<open>counter_dict\<close> unassigned:
  both calls raise \<open>UnboundLocalError\<close>.
\<close>

theorem cli_raises_on_detail_line_first:
  "fst (cli execute device interface
      (Some ''inet 192.168.100.51  netmask 255.255.255.0  broadcast 192.168.100.255''))
     = Inl UnboundLocalError
   \<and> fst (cli execute device interface
      (Some ''eth0: flags=4163<UP,BROADCAST,RUNNING,MULTICAST>  mtu 1500\<newline>        RX errors 0  dropped 0  overruns 0  frame 0''))
     = Inl UnboundLocalError"
  by (simp add: cli_def parse_inet_first parse_rx_errors_first)

subsection \<open>Header tokens made of digits\<close>

lemma parse_digit_name:
  "parse ''7: flags=4163<UP,BROADCAST,RUNNING,MULTICAST>  mtu 1500''
     = Inr ([[(''7'', PRef 1)],
             [(''interface'', PInt 7),
              (''flags'', PStr ''4163<UP,BROADCAST,RUNNING,MULTICAST>''),
              (''mtu'', PInt 1500)]], 0)"
  by code_simp

lemma snapshot_digit_name:
  "snapshot [[(''7'', PRef 1)],
             [(''interface'', PInt 7),
              (''flags'', PStr ''4163<UP,BROADCAST,RUNNING,MULTICAST>''),
              (''mtu'', PInt 1500)]] 0
     = Some (Mapping [(''7'', Mapping [(''interface'', VInt 7),
              (''flags'', VStr ''4163<UP,BROADCAST,RUNNING,MULTICAST>''),
              (''mtu'', VInt 1500)])])"
  by code_simp

lemma parse_digit_flags:
  "parse ''1: flags=2 mtu 3''
     = Inr ([[(''1'', PRef 1)],
             [(''interface'', PInt 1), (''flags'', PInt 2), (''mtu'', PInt 3)]], 0)"
  by code_simp

lemma snapshot_digit_flags:
  "snapshot [[(''1'', PRef 1)],
             [(''interface'', PInt 1), (''flags'', PInt 2), (''mtu'', PInt 3)]] 0
     = Some (Mapping [(''1'', Mapping [(''interface'', VInt 1), (''flags'', VInt 2),
              (''mtu'', VInt 3)])])"
  by code_simp

lemma validate_digit_name:
  "errors (validate (Mapping [(''7'', Mapping [(''interface'', VInt 7),
              (''flags'', VStr ''4163<UP,BROADCAST,RUNNING,MULTICAST>''),
              (''mtu'', VInt 1500)])]) IfconfigSchema)
   = [TypeMismatch [Key ''7'', Key ''interface''] KString (Scalar KInt),
      MissingRequiredKey [Key ''7''] ''type'',
      MissingRequiredKey [Key ''7''] ''destription'',
      MissingRequiredKey [Key ''7''] ''counters'']"
  by code_simp

text \<open>
  C9. The values stored under \<open>interface\<close> and \<open>flags\<close> are not always strings: the header
  branch passes every group through \<open>int(v) if v.isdigit() else v\<close>, so an interface named
  \<open>7\<close> is stored as the integer 7, and a flags token \<open>2\<close> as the integer 2.
\<close>

theorem digit_header_tokens_become_integers:
  "(\<exists>h r. fst (cli execute device interface
        (Some ''7: flags=4163<UP,BROADCAST,RUNNING,MULTICAST>  mtu 1500'')) = Inr (h, r)
      \<and> snapshot h r =
          Some (Mapping [(''7'', Mapping [(''interface'', VInt 7),
            (''flags'', VStr ''4163<UP,BROADCAST,RUNNING,MULTICAST>''), (''mtu'', VInt 1500)])]))
   \<and> (\<exists>h r. fst (cli execute device interface (Some ''1: flags=2 mtu 3'')) = Inr (h, r)
      \<and> snapshot h r =
          Some (Mapping [(''1'', Mapping [(''interface'', VInt 1), (''flags'', VInt 2),
            (''mtu'', VInt 3)])]))"
  by (simp add: cli_def parse_digit_name snapshot_digit_name parse_digit_flags
      snapshot_digit_flags del: One_nat_def)

text \<open>
  C2. For the output with the one header line of an interface named \<open>7\<close>, the record has
  exactly the keys \<open>interface\<close>, \<open>flags\<close> and \<open>mtu\<close>, and validation reports the three missing
  keys \<open>type\<close>, \<open>destription\<close> and \<open>counters\<close>; but it also reports a \<open>TypeMismatch\<close> for the
  key \<open>interface\<close>, which is present: its value was stored as an integer.
\<close>

theorem header_only_record_validation:
  "\<exists>h r v. fst (cli execute device interface
        (Some ''7: flags=4163<UP,BROADCAST,RUNNING,MULTICAST>  mtu 1500'')) = Inr (h, r)
     \<and> snapshot h r = Some (Mapping [(''7'', v)])
     \<and> v = Mapping [(''interface'', VInt 7),
            (''flags'', VStr ''4163<UP,BROADCAST,RUNNING,MULTICAST>''), (''mtu'', VInt 1500)]
     \<and> errors (validate (Mapping [(''7'', v)]) IfconfigSchema) =
         [TypeMismatch [Key ''7'', Key ''interface''] KString (Scalar KInt),
          MissingRequiredKey [Key ''7''] ''type'',
          MissingRequiredKey [Key ''7''] ''destription'',
          MissingRequiredKey [Key ''7''] ''counters'']"
  by (simp add: cli_def parse_digit_name snapshot_digit_name validate_digit_name
      del: One_nat_def)

subsection \<open>Type lines\<close>

lemma loop_line:
  "strip (replace_char CHR 0x09 ''    '' ''loop  txqueuelen 1000  (Local Loopback)'')
     = ''loop  txqueuelen 1000  (Local Loopback)''"
  "re_match p1 ''loop  txqueuelen 1000  (Local Loopback)'' = None"
  "re_match p2 ''loop  txqueuelen 1000  (Local Loopback)'' = None"
  "re_match p3 ''loop  txqueuelen 1000  (Local Loopback)'' = None"
  "py_int ''1000'' = Inr 1000"
  "map_option (groupdict p4) (re_match p4 ''loop  txqueuelen 1000  (Local Loopback)'')
     = Some [(''type'', Some ''loop''), (''mac'', None), (''txqueuelen'', Some ''1000''),
             (''destription'', Some ''Local Loopback'')]"
  by code_simp+

lemma ether_line:
  "strip (replace_char CHR 0x09 ''    '' ''ether 00:50:b6:ff:4b:83  (Ethernet)'')
     = ''ether 00:50:b6:ff:4b:83  (Ethernet)''"
  "re_match p1 ''ether 00:50:b6:ff:4b:83  (Ethernet)'' = None"
  "re_match p2 ''ether 00:50:b6:ff:4b:83  (Ethernet)'' = None"
  "re_match p3 ''ether 00:50:b6:ff:4b:83  (Ethernet)'' = None"
  "map_option (groupdict p4) (re_match p4 ''ether 00:50:b6:ff:4b:83  (Ethernet)'')
     = Some [(''type'', Some ''ether''), (''mac'', Some ''00:50:b6:ff:4b:83''),
             (''txqueuelen'', None), (''destription'', Some ''Ethernet'')]"
  by code_simp+

lemma process_loop_line:
  assumes "intf_dict st = Some (PRef a)"
  shows "process_line st ''loop  txqueuelen 1000  (Local Loopback)'' =
     Inr (st\<lparr>heap := update (update (heap st) a
            [(''type'', PStr ''loop''), (''destription'', PStr ''Local Loopback'')]) a
            [(''txqueuelen'', PInt 1000)]\<rparr>)"
  using loop_line(6) assms
  by (auto simp add: process_line_def loop_line(1-5) on_p4_def bind_def load_def as_dict_def
      as_str_def item_def truthy_def Let_def)

lemma process_ether_line:
  assumes "intf_dict st = Some (PRef a)"
  shows "process_line st ''ether 00:50:b6:ff:4b:83  (Ethernet)'' =
     Inr (st\<lparr>heap := update (update (heap st) a
            [(''type'', PStr ''ether''), (''destription'', PStr ''Ethernet'')]) a
            [(''mac'', PStr ''00:50:b6:ff:4b:83'')]\<rparr>)"
  using ether_line(5) assms
  by (auto simp add: process_line_def ether_line(1-4) on_p4_def bind_def load_def as_dict_def
      as_str_def item_def truthy_def Let_def)

lemma type_line_step:
  assumes "intf_dict st = Some (PRef a)" and "a < length (heap st)"
  shows "(\<exists>st'. process_line st ''loop  txqueuelen 1000  (Local Loopback)'' = Inr st'
          \<and> map_of (heap st' ! a) ''type'' = Some (PStr ''loop'')
          \<and> map_of (heap st' ! a) ''destription'' = Some (PStr ''Local Loopback'')
          \<and> map_of (heap st' ! a) ''txqueuelen'' = Some (PInt 1000)
          \<and> map_of (heap st' ! a) ''mac'' = map_of (heap st ! a) ''mac'')
       \<and> (\<exists>st'. process_line st ''ether 00:50:b6:ff:4b:83  (Ethernet)'' = Inr st'
          \<and> map_of (heap st' ! a) ''type'' = Some (PStr ''ether'')
          \<and> map_of (heap st' ! a) ''destription'' = Some (PStr ''Ethernet'')
          \<and> map_of (heap st' ! a) ''mac'' = Some (PStr ''00:50:b6:ff:4b:83'')
          \<and> map_of (heap st' ! a) ''txqueuelen'' = map_of (heap st ! a) ''txqueuelen'')"
  using assms
  by (simp add: process_loop_line process_ether_line update_def dict_update_def map_of_dict_set)

lemma parse_lo_loop:
  "parse ''lo: flags=73<UP,LOOPBACK,RUNNING>  mtu 65536\<newline>        loop  txqueuelen 1000  (Local Loopback)''
     = Inr ([[(''lo'', PRef 1)],
             [(''interface'', PStr ''lo''), (''flags'', PStr ''73<UP,LOOPBACK,RUNNING>''),
              (''mtu'', PInt 65536), (''type'', PStr ''loop''),
              (''destription'', PStr ''Local Loopback''), (''txqueuelen'', PInt 1000)]], 0)"
  by code_simp

lemma snapshot_lo_loop:
  "snapshot [[(''lo'', PRef 1)],
             [(''interface'', PStr ''lo''), (''flags'', PStr ''73<UP,LOOPBACK,RUNNING>''),
              (''mtu'', PInt 65536), (''type'', PStr ''loop''),
              (''destription'', PStr ''Local Loopback''), (''txqueuelen'', PInt 1000)]] 0
     = Some (Mapping [(''lo'', Mapping
             [(''interface'', VStr ''lo''), (''flags'', VStr ''73<UP,LOOPBACK,RUNNING>''),
              (''mtu'', VInt 65536), (''type'', VStr ''loop''),
              (''destription'', VStr ''Local Loopback''), (''txqueuelen'', VInt 1000)])])"
  by code_simp

lemma parse_eth_ether:
  "parse ''eth1: flags=4163<UP,BROADCAST,RUNNING,MULTICAST>  mtu 1500\<newline>        ether 00:50:b6:ff:4b:83  (Ethernet)''
     = Inr ([[(''eth1'', PRef 1)],
             [(''interface'', PStr ''eth1''),
              (''flags'', PStr ''4163<UP,BROADCAST,RUNNING,MULTICAST>''),
              (''mtu'', PInt 1500), (''type'', PStr ''ether''),
              (''destription'', PStr ''Ethernet''), (''mac'', PStr ''00:50:b6:ff:4b:83'')]], 0)"
  by code_simp

lemma snapshot_eth_ether:
  "snapshot [[(''eth1'', PRef 1)],
             [(''interface'', PStr ''eth1''),
              (''flags'', PStr ''4163<UP,BROADCAST,RUNNING,MULTICAST>''),
              (''mtu'', PInt 1500), (''type'', PStr ''ether''),
              (''destription'', PStr ''Ethernet''), (''mac'', PStr ''00:50:b6:ff:4b:83'')]] 0
     = Some (Mapping [(''eth1'', Mapping
             [(''interface'', VStr ''eth1''),
              (''flags'', VStr ''4163<UP,BROADCAST,RUNNING,MULTICAST>''),
              (''mtu'', VInt 1500), (''type'', VStr ''ether''),
              (''destription'', VStr ''Ethernet''), (''mac'', VStr ''00:50:b6:ff:4b:83'')])])"
  by code_simp

text \<open>
  C10. On the output of a header of \<open>lo\<close> followed by the line
  \<open>loop  txqueuelen 1000  (Local Loopback)\<close>, \<open>cli\<close> returns a dictionary whose record of
  \<open>lo\<close> has \<open>type\<close> \<open>loop\<close>, \<open>destription\<close> \<open>Local Loopback\<close>, \<open>txqueuelen\<close> the integer 1000
  and no key \<open>mac\<close>. On the output of a header of \<open>eth1\<close> followed by the line
  \<open>ether 00:50:b6:ff:4b:83  (Ethernet)\<close>, the record of \<open>eth1\<close> has \<open>mac\<close> the address
  string and no key \<open>txqueuelen\<close>.
\<close>

theorem cli_type_line_groups:
  "(\<exists>h r. fst (cli execute device interface
        (Some ''lo: flags=73<UP,LOOPBACK,RUNNING>  mtu 65536\<newline>        loop  txqueuelen 1000  (Local Loopback)''))
          = Inr (h, r)
      \<and> snapshot h r =
          Some (Mapping [(''lo'', Mapping
            [(''interface'', VStr ''lo''), (''flags'', VStr ''73<UP,LOOPBACK,RUNNING>''),
             (''mtu'', VInt 65536), (''type'', VStr ''loop''),
             (''destription'', VStr ''Local Loopback''), (''txqueuelen'', VInt 1000)])]))
   \<and> (\<exists>h r. fst (cli execute device interface
        (Some ''eth1: flags=4163<UP,BROADCAST,RUNNING,MULTICAST>  mtu 1500\<newline>        ether 00:50:b6:ff:4b:83  (Ethernet)''))
          = Inr (h, r)
      \<and> snapshot h r =
          Some (Mapping [(''eth1'', Mapping
            [(''interface'', VStr ''eth1''),
             (''flags'', VStr ''4163<UP,BROADCAST,RUNNING,MULTICAST>''),
             (''mtu'', VInt 1500), (''type'', VStr ''ether''),
             (''destription'', VStr ''Ethernet''), (''mac'', VStr ''00:50:b6:ff:4b:83'')])]))"
  by (simp add: cli_def parse_lo_loop snapshot_lo_loop parse_eth_ether snapshot_eth_ether
      del: One_nat_def)

end
